theory Spec2Isabelle
  imports Main "HOL-Library.Numeral_Type"
begin

section \<open>The a * b = c proof of zksigma (abc.go)\<close>

text \<open>
  The file abc.go holds two functions, \<open>NewABCProof\<close> (the prover) and
  \<open>(*ABCProof).Verify\<close> (the verifier). Everything else they call lives outside the
  file: the curve \<open>ZKCurve\<close> with its generators and order, the point operations of
  \<open>ECPoint\<close>, \<open>PedCommitR\<close>, \<open>GenerateChallenge\<close>, the disjunctive proof, and Go's
  \<open>math/big\<close> and \<open>crypto/rand\<close>. The two functions are embedded as they are written;
  the collaborators are the fields of an explicitly passed record.
\<close>

subsection \<open>Data\<close>

datatype Side = Left | Right

text \<open>
  Go's \<open>error\<close> values: \<open>&errorProof{t, s}\<close> as the file builds them, and the error
  that \<open>rand.Int\<close> hands back when the reader gives out.
\<close>

datatype error = errorProof string string | randError

text \<open>The struct \<open>ABCProof\<close>, field by field (abc.go, lines 43-54).\<close>

record ('p, 'd) ABCProof =
  B :: 'p
  C :: 'p
  T1 :: 'p
  T2 :: 'p
  Challenge :: int
  j :: int
  k :: int
  l :: int
  CToken :: 'p
  disjuncAC :: 'd

text \<open>
  The pointer \<open>*ABCProof\<close> that \<open>NewABCProof\<close> returns: Go's \<open>nil\<close>, the address of
  the zero-valued struct \<open>&ABCProof{}\<close> (every field nil or empty), or the address of
  a filled struct.
\<close>

datatype ('p, 'd) ABCProof_ptr = nil | EmptyABCProof | Ref "('p, 'd) ABCProof"

text \<open>A call either returns its results or panics (a nil dereference, \<open>rand.Int\<close> with \<open>max <= 0\<close>).\<close>

datatype 'a outcome = Panic | Return 'a

text \<open>
  The collaborators. \<open>N\<close> is \<open>ZKCurve.C.Params().N\<close>, \<open>G\<close> and \<open>H\<close> are
  \<open>ZKCurve.G\<close> and \<open>ZKCurve.H\<close>; \<open>Add\<close>, \<open>Sub\<close>, \<open>Mult\<close> and \<open>Bytes\<close> are the methods
  of \<open>ECPoint\<close>; \<open>ModInverse\<close> is \<open>new(big.Int).ModInverse\<close>, whose result is a
  pointer and may be nil (\<open>None\<close>); \<open>NewDisjunctiveProof\<close> draws from the random
  reader, so it takes the reader and returns what is left; \<open>DisjVerify\<close> is
  \<open>(*DisjunctiveProof).Verify\<close> with the receiver as its first argument.
\<close>

record ('p, 'b, 'd) env =
  N :: int
  G :: 'p
  H :: 'p
  Add :: "'p \<Rightarrow> 'p \<Rightarrow> 'p"
  Sub :: "'p \<Rightarrow> 'p \<Rightarrow> 'p"
  Mult :: "'p \<Rightarrow> int \<Rightarrow> 'p"
  Bytes :: "'p \<Rightarrow> 'b"
  GenerateChallenge :: "'b list \<Rightarrow> int"
  ModInverse :: "int \<Rightarrow> int \<Rightarrow> int option"
  NewDisjunctiveProof ::
    "'p \<Rightarrow> 'p \<Rightarrow> 'p \<Rightarrow> 'p \<Rightarrow> int \<Rightarrow> Side \<Rightarrow> int list \<Rightarrow> (error + 'd) \<times> int list"
  DisjVerify :: "'d \<Rightarrow> 'p \<Rightarrow> 'p \<Rightarrow> 'p \<Rightarrow> 'p \<Rightarrow> bool \<times> error option"

text \<open>
  The state a call of \<open>NewABCProof\<close> works on: \<open>reader\<close> is \<open>rand.Reader\<close>, the
  scalars that successive calls of \<open>rand.Int\<close> will deliver (an empty list is an
  exhausted reader); \<open>disj_calls\<close> records every invocation of \<open>NewDisjunctiveProof\<close>
  with its arguments, oldest first.
\<close>

record 'p world =
  reader :: "int list"
  disj_calls :: "('p \<times> 'p \<times> 'p \<times> 'p \<times> int \<times> Side) list"

subsection \<open>Collaborators used by the file\<close>

text \<open>
  \<open>rand.Int(rand.Reader, max)\<close>: panics when \<open>max <= 0\<close>, fails with an error when
  the reader is exhausted, and otherwise delivers the next scalar.
\<close>

definition rand_Int :: "int \<Rightarrow> 'p world \<Rightarrow> (error + int) outcome \<times> 'p world" where
  "rand_Int mx w =
     (if mx \<le> 0 then (Panic, w)
      else case reader w of
             [] \<Rightarrow> (Return (Inl randError), w)
           | x # xs \<Rightarrow> (Return (Inr x), w\<lparr>reader := xs\<rparr>))"

text \<open>
  Modelled from the spec: \<open>PedCommitR\<close> is not in abc.go; the spec gives
  \<open>PedersenCommit(value, randomness) = value\<cdot>G + randomness\<cdot>H\<close>.
\<close>

definition PedCommitR :: "('p, 'b, 'd) env \<Rightarrow> int \<Rightarrow> int \<Rightarrow> 'p" where
  "PedCommitR e v r = Add e (Mult e (G e) v) (Mult e (H e) r)"

text \<open>The call of \<open>NewDisjunctiveProof\<close>: the arguments are recorded, the reader is threaded through.\<close>

definition call_NewDisjunctiveProof ::
  "('p, 'b, 'd) env \<Rightarrow> 'p \<Rightarrow> 'p \<Rightarrow> 'p \<Rightarrow> 'p \<Rightarrow> int \<Rightarrow> Side \<Rightarrow> 'p world
     \<Rightarrow> (error + 'd) \<times> 'p world" where
  "call_NewDisjunctiveProof e Base1 Result1 Base2 Result2 x option w =
     (let (r, rd) = NewDisjunctiveProof e Base1 Result1 Base2 Result2 x option (reader w)
      in (r, w\<lparr>reader := rd,
               disj_calls := disj_calls w @ [(Base1, Result1, Base2, Result2, x, option)]\<rparr>))"

subsection \<open>NewABCProof\<close>

text \<open>The two errors \<open>NewABCProof\<close> builds itself (lines 116 and 120).\<close>

definition InvalidInput :: error where
  "InvalidInput = errorProof ''ABCProof'' ''invalid side-value pair passed''"

definition SubProofGenError :: error where
  "SubProofGenError =
     errorProof ''ABCProof'' ''DisjuntiveProve within ABCProve failed to generate''"

text \<open>
  Lines 119-168: everything after the branch. \<open>e'\<close> is the error of the disjunctive
  generator; \<open>isk\<close> is a pointer, and multiplying through a nil pointer panics.
\<close>

definition finish_proof ::
  "('p, 'b, 'd) env \<Rightarrow> 'p \<Rightarrow> 'p \<Rightarrow> int \<Rightarrow> int \<Rightarrow> int \<Rightarrow> int \<Rightarrow> int \<Rightarrow> int \<Rightarrow> int
     \<Rightarrow> 'p \<Rightarrow> 'p \<Rightarrow> 'p \<Rightarrow> (error + 'd)
     \<Rightarrow> (('p, 'd) ABCProof_ptr \<times> error option) outcome" where
  "finish_proof e CM CMTok val sk u1 u2 u3 ub uc Bp Cp CTok r =
     (case r of
        Inl e' \<Rightarrow> Return (EmptyABCProof, Some SubProofGenError)
      | Inr d \<Rightarrow>
          let u1G = Mult e (G e) u1;
              u2Ta = Mult e CMTok u2;
              T1p = Add e u1G u2Ta;
              u1B = Mult e Bp u1;
              u3H = Mult e (H e) u3;
              T2p = Add e u1B u3H;
              Chal = GenerateChallenge e
                [Bytes e (G e), Bytes e (H e), Bytes e CM, Bytes e CMTok,
                 Bytes e Bp, Bytes e Cp, Bytes e T1p, Bytes e T2p];
              jv = (u1 + val * Chal) mod N e
          in (case ModInverse e sk (N e) of
                None \<Rightarrow> Panic
              | Some isk \<Rightarrow>
                  let kv = (u2 + isk * Chal) mod N e;
                      temp1 = uc - val * ub;
                      lv = u3 + temp1 * Chal
                  in Return
                       (Ref \<lparr>B = Bp, C = Cp, T1 = T1p, T2 = T2p, Challenge = Chal,
                             j = jv, k = kv, l = lv, CToken = CTok, disjuncAC = d\<rparr>,
                        None)))"

text \<open>
  Lines 87-117: the branch on \<open>(option, value)\<close>, entered with the five scalars
  drawn. \<open>PedCommitR\<close> reads its first argument, so a nil inverse panics there.
\<close>

definition branch ::
  "('p, 'b, 'd) env \<Rightarrow> 'p \<Rightarrow> 'p \<Rightarrow> int \<Rightarrow> int \<Rightarrow> Side \<Rightarrow> int \<Rightarrow> int \<Rightarrow> int \<Rightarrow> int \<Rightarrow> int
     \<Rightarrow> 'p world \<Rightarrow> (('p, 'd) ABCProof_ptr \<times> error option) outcome \<times> 'p world" where
  "branch e CM CMTok val sk option u1 u2 u3 ub uc w =
     (let CTok = Mult e (Mult e (H e) sk) uc in
      if option = Left \<and> val = 0 then
        (case ModInverse e 0 (N e) of
           None \<Rightarrow> (Panic, w)
         | Some i0 \<Rightarrow>
             let Bp = PedCommitR e i0 ub;
                 Cp = PedCommitR e 0 uc;
                 (r, w') = call_NewDisjunctiveProof e CM CMTok (H e) (Sub e Cp (G e)) sk Left w
             in (finish_proof e CM CMTok val sk u1 u2 u3 ub uc Bp Cp CTok r, w'))
      else if option = Right \<and> val \<noteq> 0 then
        (case ModInverse e val (N e) of
           None \<Rightarrow> (Panic, w)
         | Some iv \<Rightarrow>
             let Bp = PedCommitR e iv ub;
                 Cp = PedCommitR e 1 uc;
                 (r, w') = call_NewDisjunctiveProof e CM CMTok (H e) (Sub e Cp (G e)) uc Right w
             in (finish_proof e CM CMTok val sk u1 u2 u3 ub uc Bp Cp CTok r, w'))
      else (Return (EmptyABCProof, Some InvalidInput), w))"

text \<open>
  Lines 64-85: one draw with its \<open>if err != nil { return nil, err }\<close>, followed by
  the rest of the function.
\<close>

definition draw ::
  "int \<Rightarrow> 'p world
     \<Rightarrow> (int \<Rightarrow> 'p world \<Rightarrow> (('p, 'd) ABCProof_ptr \<times> error option) outcome \<times> 'p world)
     \<Rightarrow> (('p, 'd) ABCProof_ptr \<times> error option) outcome \<times> 'p world" where
  "draw mx w cont =
     (case rand_Int mx w of
        (Panic, w') \<Rightarrow> (Panic, w')
      | (Return (Inl err), w') \<Rightarrow> (Return (nil, Some err), w')
      | (Return (Inr u), w') \<Rightarrow> cont u w')"

definition NewABCProof ::
  "('p, 'b, 'd) env \<Rightarrow> 'p \<Rightarrow> 'p \<Rightarrow> int \<Rightarrow> int \<Rightarrow> Side \<Rightarrow> 'p world
     \<Rightarrow> (('p, 'd) ABCProof_ptr \<times> error option) outcome \<times> 'p world" where
  "NewABCProof e CM CMTok val sk option w =
     draw (N e) w (\<lambda>u1 w1.
     draw (N e) w1 (\<lambda>u2 w2.
     draw (N e) w2 (\<lambda>u3 w3.
     draw (N e) w3 (\<lambda>ub w4.
     draw (N e) w4 (\<lambda>uc w5.
       branch e CM CMTok val sk option u1 u2 u3 ub uc w5)))))"

subsection \<open>Verify\<close>

text \<open>The four errors of \<open>Verify\<close> (lines 186, 196, 212 and 224).\<close>

definition SubProofError :: error where
  "SubProofError =
     errorProof ''ABCVerify'' ''ABCProof for disjuncAC is false or not generated properly''"

definition ChallengeMismatch :: error where
  "ChallengeMismatch = errorProof ''ABCVerify'' ''proof contains incorrect challenge''"

definition EquationMismatch1 :: error where
  "EquationMismatch1 = errorProof ''ABCProof'' ''cCM + T1 != jG + kCMTok''"

definition EquationMismatch2 :: error where
  "EquationMismatch2 = errorProof ''ABCVerify'' ''cC + T2 != jB + lH''"

text \<open>
  Lines 180-228. \<open>Equal\<close> on points is exact equality of the two values. The
  receiver is a filled struct: on \<open>nil\<close> the first field access panics.
\<close>

definition Verify ::
  "('p, 'b, 'd) env \<Rightarrow> ('p, 'd) ABCProof \<Rightarrow> 'p \<Rightarrow> 'p \<Rightarrow> bool \<times> error option" where
  "Verify e aProof CM CMTok =
     (let status = snd (DisjVerify e (disjuncAC aProof) CM CMTok (H e)
                          (Sub e (C aProof) (G e)))
      in if status \<noteq> None then (False, Some SubProofError)
      else
        let Chal = GenerateChallenge e
              [Bytes e (G e), Bytes e (H e), Bytes e CM, Bytes e CMTok,
               Bytes e (B aProof), Bytes e (C aProof),
               Bytes e (T1 aProof), Bytes e (T2 aProof)]
        in if Chal \<noteq> Challenge aProof then (False, Some ChallengeMismatch)
        else
          let chalA = Mult e CM Chal;
              lhs1 = Add e chalA (T1 aProof);
              jG = Mult e (G e) (j aProof);
              kCMTok = Mult e CMTok (k aProof);
              rhs1 = Add e jG kCMTok
          in if lhs1 \<noteq> rhs1 then (False, Some EquationMismatch1)
          else
            let chalC = Mult e (C aProof) Chal;
                lhs2 = Add e chalC (T2 aProof);
                jB = Mult e (B aProof) (j aProof);
                lH = Mult e (H e) (l aProof);
                rhs2 = Add e jB lH
            in if lhs2 \<noteq> rhs2 then (False, Some EquationMismatch2)
            else (True, None))"

subsection \<open>What the collaborators are assumed to satisfy\<close>

text \<open>
  The points form a commutative group written additively, \<open>Mult\<close> is scalar
  multiplication, and every point is annihilated by \<open>N\<close>, so that a scalar only counts
  modulo \<open>N\<close>. \<open>Sub\<close> undoes \<open>Add\<close>.
\<close>

definition group_laws :: "('p, 'b, 'd) env \<Rightarrow> bool" where
  "group_laws e =
     ((\<forall>p q. Add e p q = Add e q p) \<and>
      (\<forall>p q r. Add e (Add e p q) r = Add e p (Add e q r)) \<and>
      (\<forall>p q. Sub e (Add e p q) q = p) \<and>
      (\<forall>p a b. Mult e p (a + b) = Add e (Mult e p a) (Mult e p b)) \<and>
      (\<forall>p q a. Mult e (Add e p q) a = Add e (Mult e p a) (Mult e q a)) \<and>
      (\<forall>p a b. Mult e (Mult e p a) b = Mult e p (a * b)) \<and>
      (\<forall>p. Mult e p 1 = p) \<and>
      (\<forall>p a. Mult e p (a mod N e) = Mult e p a))"

text \<open>The combination \<open>a\<cdot>G + b\<cdot>H\<close>, and the neutral point.\<close>

definition lin :: "('p, 'b, 'd) env \<Rightarrow> int \<Rightarrow> int \<Rightarrow> 'p" where
  "lin e a b = Add e (Mult e (G e) a) (Mult e (H e) b)"

definition Zero_point :: "('p, 'b, 'd) env \<Rightarrow> 'p" where
  "Zero_point e = Mult e (G e) 0"

text \<open>The group order is a prime.\<close>

definition prime_order :: "int \<Rightarrow> bool" where
  "prime_order n = (1 < n \<and> (\<forall>m \<in> {2..<n}. \<not> m dvd n))"

text \<open>\<open>ModInverse\<close> inverts every scalar that has an inverse modulo \<open>N\<close>.\<close>

definition inverse_ok :: "('p, 'b, 'd) env \<Rightarrow> bool" where
  "inverse_ok e =
     (\<forall>g. coprime g (N e) \<longrightarrow>
        (\<exists>x. ModInverse e g (N e) = Some x \<and> (g * x) mod N e = 1 mod N e))"

text \<open>
  The statement of the disjunctive proof, as the comments of lines 102-104 use it:
  the witness \<open>x\<close> opens \<open>Result1 = x\<cdot>Base1\<close> on the left and \<open>Result2 = x\<cdot>Base2\<close> on
  the right. The collaborator is complete on a reader \<open>rd\<close> when, for a true
  statement, the generator returns a proof and the verifier accepts it.
\<close>

definition disj_statement ::
  "('p, 'b, 'd) env \<Rightarrow> 'p \<Rightarrow> 'p \<Rightarrow> 'p \<Rightarrow> 'p \<Rightarrow> int \<Rightarrow> Side \<Rightarrow> bool" where
  "disj_statement e Base1 Result1 Base2 Result2 x option =
     (case option of Left \<Rightarrow> Result1 = Mult e Base1 x | Right \<Rightarrow> Result2 = Mult e Base2 x)"

definition disj_complete :: "('p, 'b, 'd) env \<Rightarrow> int list \<Rightarrow> bool" where
  "disj_complete e rd =
     (\<forall>Base1 Result1 Base2 Result2 x option.
        disj_statement e Base1 Result1 Base2 Result2 x option \<longrightarrow>
        (\<exists>d rd'. NewDisjunctiveProof e Base1 Result1 Base2 Result2 x option rd = (Inr d, rd') \<and>
                 DisjVerify e d Base1 Result1 Base2 Result2 = (True, None)))"

subsection \<open>A small instance\<close>

text \<open>
  Go's \<open>ModInverse\<close> (math/big): the inverse in \<open>[0, n)\<close> of a scalar that has one
  modulo \<open>n\<close>, and nil for a scalar that has none, 0 among them.
\<close>

definition ModInverse_nil :: "int \<Rightarrow> int \<Rightarrow> int option" where
  "ModInverse_nil g n = find (\<lambda>x. (g * x) mod n = 1 mod n) [0..n - 1]"

text \<open>
  The group of integers modulo 11 with generators 1 and 2, a challenge function that
  mixes its eight inputs, and a disjunctive proof that draws one scalar and hands over
  the witness itself, which the verifier checks against both sides.
\<close>

definition toy_NewDisjunctiveProof ::
  "11 \<Rightarrow> 11 \<Rightarrow> 11 \<Rightarrow> 11 \<Rightarrow> int \<Rightarrow> Side \<Rightarrow> int list \<Rightarrow> (error + int) \<times> int list" where
  "toy_NewDisjunctiveProof Base1 Result1 Base2 Result2 x option rd =
     (case rd of [] \<Rightarrow> (Inl randError, rd) | t # rd' \<Rightarrow> (Inr x, rd'))"

definition toy_DisjVerify :: "int \<Rightarrow> 11 \<Rightarrow> 11 \<Rightarrow> 11 \<Rightarrow> 11 \<Rightarrow> bool \<times> error option" where
  "toy_DisjVerify d Base1 Result1 Base2 Result2 =
     (if Result1 = Base1 * of_int d \<or> Result2 = Base2 * of_int d then (True, None)
      else (False, Some (errorProof ''DisjunctiveProof'' ''neither side holds'')))"

definition zk11 :: "(11, int, int) env" where
  "zk11 = \<lparr>N = 11, G = 1, H = 2, Add = (+), Sub = (-), Mult = (\<lambda>p a. p * of_int a),
           Bytes = Rep_bit1,
           GenerateChallenge = (\<lambda>bs. foldl (\<lambda>a b. 3 * a + b + 1) 0 bs mod 11),
           ModInverse = ModInverse_nil,
           NewDisjunctiveProof = toy_NewDisjunctiveProof,
           DisjVerify = toy_DisjVerify\<rparr>"

text \<open>
  A reader holding six scalars, and the proof the prover builds from it for \<open>v = 5\<close>,
  \<open>sk = 7\<close> on the right (\<open>CM = 2\<close>, \<open>CMTok = 1\<close>, blinding 4).
\<close>

definition toy_world :: "11 world" where
  "toy_world = \<lparr>reader = [1, 2, 3, 4, 5, 6], disj_calls = []\<rparr>"

definition toy_proof :: "(11, int) ABCProof" where
  "toy_proof = \<lparr>B = 6, C = 0, T1 = 3, T2 = 1, Challenge = 8, j = 8, k = 0, l = - 117,
                 CToken = 4, disjuncAC = 5\<rparr>"

subsection \<open>The verifier in the words of the specification\<close>

text \<open>
  The four checks of section 4.2 of the specification, in its order, each with its
  error. The sub-proof check reads the error of the collaborator only: line 184
  discards its boolean. The two equations are written with the stored challenge.
\<close>

definition check_subproof :: "('p, 'b, 'd) env \<Rightarrow> ('p, 'd) ABCProof \<Rightarrow> 'p \<Rightarrow> 'p \<Rightarrow> bool" where
  "check_subproof e p CM CMTok =
     (snd (DisjVerify e (disjuncAC p) CM CMTok (H e) (Sub e (C p) (G e))) = None)"

definition recompute_challenge ::
  "('p, 'b, 'd) env \<Rightarrow> ('p, 'd) ABCProof \<Rightarrow> 'p \<Rightarrow> 'p \<Rightarrow> int" where
  "recompute_challenge e p CM CMTok =
     GenerateChallenge e
       [Bytes e (G e), Bytes e (H e), Bytes e CM, Bytes e CMTok,
        Bytes e (B p), Bytes e (C p), Bytes e (T1 p), Bytes e (T2 p)]"

definition check_challenge :: "('p, 'b, 'd) env \<Rightarrow> ('p, 'd) ABCProof \<Rightarrow> 'p \<Rightarrow> 'p \<Rightarrow> bool" where
  "check_challenge e p CM CMTok = (recompute_challenge e p CM CMTok = Challenge p)"

definition check_linear1 :: "('p, 'b, 'd) env \<Rightarrow> ('p, 'd) ABCProof \<Rightarrow> 'p \<Rightarrow> 'p \<Rightarrow> bool" where
  "check_linear1 e p CM CMTok =
     (Add e (Mult e CM (Challenge p)) (T1 p) = Add e (Mult e (G e) (j p)) (Mult e CMTok (k p)))"

definition check_linear2 :: "('p, 'b, 'd) env \<Rightarrow> ('p, 'd) ABCProof \<Rightarrow> bool" where
  "check_linear2 e p =
     (Add e (Mult e (C p) (Challenge p)) (T2 p) = Add e (Mult e (B p) (j p)) (Mult e (H e) (l p)))"

definition Verify_spec ::
  "('p, 'b, 'd) env \<Rightarrow> ('p, 'd) ABCProof \<Rightarrow> 'p \<Rightarrow> 'p \<Rightarrow> bool \<times> error option" where
  "Verify_spec e p CM CMTok =
     (if \<not> check_subproof e p CM CMTok then (False, Some SubProofError)
      else if \<not> check_challenge e p CM CMTok then (False, Some ChallengeMismatch)
      else if \<not> check_linear1 e p CM CMTok then (False, Some EquationMismatch1)
      else if \<not> check_linear2 e p then (False, Some EquationMismatch2)
      else (True, None))"

section \<open>Properties\<close>

subsection \<open>Consequences of the group laws\<close>

lemma gl_comm: "group_laws e \<Longrightarrow> Add e p q = Add e q p"
  unfolding group_laws_def by blast

lemma gl_assoc: "group_laws e \<Longrightarrow> Add e (Add e p q) r = Add e p (Add e q r)"
  unfolding group_laws_def by blast

lemma gl_sub: "group_laws e \<Longrightarrow> Sub e (Add e p q) q = p"
  unfolding group_laws_def by blast

lemma gl_mult_add: "group_laws e \<Longrightarrow> Mult e p (a + b) = Add e (Mult e p a) (Mult e p b)"
  unfolding group_laws_def by blast

lemma gl_add_mult: "group_laws e \<Longrightarrow> Mult e (Add e p q) a = Add e (Mult e p a) (Mult e q a)"
  unfolding group_laws_def by blast

lemma gl_mult_mult: "group_laws e \<Longrightarrow> Mult e (Mult e p a) b = Mult e p (a * b)"
  unfolding group_laws_def by blast

lemma gl_mult_one: "group_laws e \<Longrightarrow> Mult e p 1 = p"
  unfolding group_laws_def by blast

lemma gl_mult_mod: "group_laws e \<Longrightarrow> Mult e p (a mod N e) = Mult e p a"
  unfolding group_laws_def by blast

lemma gl_left_comm:
  assumes gl: "group_laws e" shows "Add e p (Add e q r) = Add e q (Add e p r)"
proof -
  have "Add e p (Add e q r) = Add e (Add e p q) r" by (simp add: gl_assoc [OF gl])
  also have "\<dots> = Add e (Add e q p) r" by (simp add: gl_comm [OF gl, of p q])
  also have "\<dots> = Add e q (Add e p r)" by (simp add: gl_assoc [OF gl])
  finally show ?thesis .
qed

lemma add_cancel_right:
  assumes gl: "group_laws e" and eq: "Add e x q = Add e y q" shows "x = y"
proof -
  have "x = Sub e (Add e x q) q" by (simp add: gl_sub [OF gl])
  also have "\<dots> = Sub e (Add e y q) q" by (simp add: eq)
  also have "\<dots> = y" by (simp add: gl_sub [OF gl])
  finally show ?thesis .
qed

lemma add_cancel_left:
  assumes gl: "group_laws e" and eq: "Add e q x = Add e q y" shows "x = y"
proof -
  have "Add e x q = Add e y q" using eq gl_comm [OF gl, of x q] gl_comm [OF gl, of y q] by simp
  with gl show ?thesis by (rule add_cancel_right)
qed

lemma add_zero_right:
  assumes gl: "group_laws e" shows "Add e x (Mult e p 0) = x"
proof -
  let ?z = "Mult e p 0"
  have "Add e ?z ?z = ?z" using gl_mult_add [OF gl, of p 0 0] by simp
  then have "Add e (Add e x ?z) ?z = Add e x ?z" by (simp add: gl_assoc [OF gl])
  with gl show ?thesis by (rule add_cancel_right)
qed

lemma add_zero_left:
  assumes gl: "group_laws e" shows "Add e (Mult e p 0) x = x"
  using add_zero_right [OF gl, of x p] gl_comm [OF gl, of x] by simp

lemma mult_cong:
  assumes gl: "group_laws e" and "a mod N e = b mod N e" shows "Mult e p a = Mult e p b"
proof -
  have "Mult e p a = Mult e p (a mod N e)" by (simp add: gl_mult_mod [OF gl])
  also have "\<dots> = Mult e p (b mod N e)" using assms(2) by simp
  also have "\<dots> = Mult e p b" by (simp add: gl_mult_mod [OF gl])
  finally show ?thesis .
qed

lemma lin_cong:
  assumes "group_laws e" "a mod N e = a' mod N e" "b mod N e = b' mod N e"
  shows "lin e a b = lin e a' b'"
  unfolding lin_def using mult_cong [OF assms(1) assms(2)] mult_cong [OF assms(1) assms(3)] by simp

lemma lin_add:
  assumes gl: "group_laws e"
  shows "Add e (lin e a b) (lin e a' b') = lin e (a + a') (b + b')"
  unfolding lin_def gl_mult_add [OF gl]
  by (simp add: gl_assoc [OF gl] gl_left_comm [OF gl, of "Mult e (H e) b"])

lemma lin_mult:
  assumes gl: "group_laws e"
  shows "Mult e (lin e a b) c = lin e (a * c) (b * c)"
  unfolding lin_def by (simp add: gl_add_mult [OF gl] gl_mult_mult [OF gl])

lemma lin_G: assumes gl: "group_laws e" shows "Mult e (G e) a = lin e a 0"
  unfolding lin_def by (simp add: add_zero_right [OF gl])

lemma lin_H: assumes gl: "group_laws e" shows "Mult e (H e) b = lin e 0 b"
  unfolding lin_def by (simp add: add_zero_left [OF gl])

lemma lin_G1: assumes gl: "group_laws e" shows "G e = lin e 1 0"
  using lin_G [OF gl, of 1] by (simp add: gl_mult_one [OF gl])

lemma lin_sub_G:
  assumes gl: "group_laws e" shows "Sub e (lin e (a + 1) b) (G e) = lin e a b"
proof -
  have "lin e (a + 1) b = Add e (lin e a b) (lin e 1 0)"
    by (simp add: lin_add [OF gl])
  also have "\<dots> = Add e (lin e a b) (G e)" using lin_G1 [OF gl] by simp
  finally show ?thesis by (simp add: gl_sub [OF gl])
qed


subsection \<open>Arithmetic modulo the group order\<close>

lemma prime_order_coprime:
  assumes p: "prime_order n" and nz: "x mod n \<noteq> 0"
  shows "coprime x n"
proof -
  let ?g = "gcd x n"
  have n1: "1 < n" using p by (simp add: prime_order_def)
  have gd: "?g dvd n" "?g dvd x" by simp_all
  have g0: "0 < ?g" using n1 by (simp add: gcd_pos_int)
  have gle: "?g \<le> n" using gd(1) n1 by (simp add: zdvd_imp_le)
  have "?g \<noteq> n" using gd(2) nz by (metis mod_eq_0_iff_dvd)
  then have "?g < n" using gle by simp
  moreover have "\<not> (2 \<le> ?g \<and> ?g < n)" using p gd(1) by (auto simp: prime_order_def)
  ultimately have "?g = 1" using g0 by linarith
  then show ?thesis by (simp add: coprime_iff_gcd_eq_1)
qed

lemma coprime_inverse_exists:
  fixes g n :: int
  assumes cp: "coprime g n"
  shows "\<exists>x. (g * x) mod n = 1 mod n"
proof -
  from cp have "gcd g n = 1" by (simp add: coprime_iff_gcd_eq_1)
  with bezout_int [of g n] obtain u v where uv: "u * g + v * n = 1" by auto
  have "g * u = 1 - v * n" using uv by (simp add: algebra_simps)
  moreover have "(1 - v * n) mod n = 1 mod n"
  proof -
    have "(1 - v * n) mod n = (1 - (v * n) mod n) mod n" by (simp only: mod_diff_right_eq)
    then show ?thesis by simp
  qed
  ultimately have "(g * u) mod n = 1 mod n" by simp
  then show ?thesis by blast
qed

lemma zero_points_agree:
  assumes gl: "group_laws e" shows "Mult e p 0 = Zero_point e"
proof -
  have "Mult e p 0 = Add e (Mult e p 0) (Mult e (G e) 0)" by (simp add: add_zero_right [OF gl])
  also have "\<dots> = Mult e (G e) 0" by (simp add: add_zero_left [OF gl])
  finally show ?thesis by (simp add: Zero_point_def)
qed

lemma scalar_cancel:
  assumes gl: "group_laws e" and po: "prime_order (N e)"
    and a: "a mod N e \<noteq> 0" and eq: "Mult e p a = Mult e q a"
  shows "p = q"
proof -
  from coprime_inverse_exists [OF prime_order_coprime [OF po a]]
  obtain t where t: "(a * t) mod N e = 1 mod N e" by blast
  have inv_t: "Mult e (Mult e x a) t = x" for x
  proof -
    have "Mult e (Mult e x a) t = Mult e x (a * t)" by (simp add: gl_mult_mult [OF gl])
    also have "\<dots> = Mult e x 1" by (rule mult_cong [OF gl]) (simp add: t)
    finally show ?thesis by (simp add: gl_mult_one [OF gl])
  qed
  have "p = Mult e (Mult e p a) t" by (simp add: inv_t)
  also have "\<dots> = Mult e (Mult e q a) t" by (simp add: eq)
  also have "\<dots> = q" by (simp add: inv_t)
  finally show ?thesis .
qed

lemma point_order:
  assumes gl: "group_laws e" and po: "prime_order (N e)"
    and nz: "p \<noteq> Zero_point e" and eq: "Mult e p a = Mult e p b"
  shows "a mod N e = b mod N e"
proof (rule ccontr)
  assume ne: "a mod N e \<noteq> b mod N e"
  have d: "(a - b) mod N e \<noteq> 0"
  proof
    assume "(a - b) mod N e = 0"
    then have "N e dvd a - b" by (simp add: mod_eq_0_iff_dvd)
    then have "a mod N e = b mod N e" by (simp add: mod_eq_dvd_iff)
    with ne show False by simp
  qed
  have "Add e (Mult e p (a - b)) (Mult e p b) = Mult e p a"
    using gl_mult_add [OF gl, of p "a - b" b] by simp
  also have "\<dots> = Add e (Mult e p 0) (Mult e p b)" by (simp add: eq add_zero_left [OF gl])
  finally have "Mult e p (a - b) = Mult e p 0" by (rule add_cancel_right [OF gl])
  also have "\<dots> = Mult e (Mult e p 0) (a - b)" by (simp add: gl_mult_mult [OF gl])
  finally have "p = Mult e p 0" by (rule scalar_cancel [OF gl po d])
  with nz show False by (simp add: zero_points_agree [OF gl])
qed

subsection \<open>The run after the draws, and the two equations on honest inputs\<close>

lemma NewABCProof_drawn:
  assumes "0 < N e" and "reader w = u1 # u2 # u3 # ub # uc # rd"
  shows "NewABCProof e CM CMTok v sk side w =
           branch e CM CMTok v sk side u1 u2 u3 ub uc (w\<lparr>reader := rd\<rparr>)"
  using assms by (simp add: NewABCProof_def draw_def rand_Int_def)

lemma cong1:
  fixes n :: int
  assumes "(s * i) mod n = 1 mod n"
  shows "(r * c + s * r * u2) mod n = (s * r * ((u2 + i * c) mod n)) mod n"
proof -
  have "(s * r * ((u2 + i * c) mod n)) mod n = (s * r * (u2 + i * c)) mod n"
    by (simp add: mod_mult_right_eq)
  also have "s * r * (u2 + i * c) = s * r * u2 + (s * i) * (r * c)"
    by (simp add: algebra_simps)
  also have "(s * r * u2 + (s * i) * (r * c)) mod n
             = (s * r * u2 + ((s * i) mod n) * (r * c)) mod n"
    by (metis mod_add_right_eq mod_mult_left_eq)
  also have "\<dots> = (s * r * u2 + (1 mod n) * (r * c)) mod n" using assms by simp
  also have "\<dots> = (s * r * u2 + 1 * (r * c)) mod n"
    by (metis mod_add_right_eq mod_mult_left_eq)
  also have "\<dots> = (s * r * u2 + r * c) mod n" by simp
  finally show ?thesis by (simp add: add.commute)
qed

lemma cong2:
  fixes n :: int
  assumes "(b * v) mod n = cb mod n"
  shows "(cb * c + b * u1) mod n = (b * ((u1 + v * c) mod n)) mod n"
proof -
  have "(b * ((u1 + v * c) mod n)) mod n = (b * (u1 + v * c)) mod n"
    by (simp add: mod_mult_right_eq)
  also have "b * (u1 + v * c) = b * u1 + (b * v) * c" by (simp add: algebra_simps)
  also have "(b * u1 + (b * v) * c) mod n = (b * u1 + ((b * v) mod n) * c) mod n"
    by (metis mod_add_right_eq mod_mult_left_eq)
  also have "\<dots> = (b * u1 + (cb mod n) * c) mod n" using assms by simp
  also have "\<dots> = (b * u1 + cb * c) mod n"
    by (metis mod_add_right_eq mod_mult_left_eq)
  finally show ?thesis by (simp add: add.commute)
qed

lemma cong3:
  fixes n :: int
  shows "(uc * c + (ub * u1 + u3)) mod n
         = (ub * ((u1 + v * c) mod n) + (u3 + (uc - v * ub) * c)) mod n"
proof -
  have "(ub * ((u1 + v * c) mod n) + (u3 + (uc - v * ub) * c)) mod n
        = (ub * (u1 + v * c) + (u3 + (uc - v * ub) * c)) mod n"
    by (metis mod_add_left_eq mod_mult_right_eq)
  also have "ub * (u1 + v * c) + (u3 + (uc - v * ub) * c) = uc * c + (ub * u1 + u3)"
    by (simp add: algebra_simps)
  finally show ?thesis by simp
qed

lemma eq1_holds:
  assumes gl: "group_laws e" and inv: "(sk * isk) mod N e = 1 mod N e"
  shows "Add e (Mult e (lin e v r) c) (Add e (Mult e (G e) u1) (Mult e (lin e 0 (sk * r)) u2))
         = Add e (Mult e (G e) ((u1 + v * c) mod N e))
                 (Mult e (lin e 0 (sk * r)) ((u2 + isk * c) mod N e))"
proof -
  have "Add e (Mult e (lin e v r) c) (Add e (Mult e (G e) u1) (Mult e (lin e 0 (sk * r)) u2))
        = lin e (v * c + u1) (r * c + sk * r * u2)"
    by (simp add: lin_mult [OF gl] lin_G [OF gl] lin_add [OF gl])
  also have "\<dots> = lin e ((u1 + v * c) mod N e) (sk * r * ((u2 + isk * c) mod N e))"
    by (rule lin_cong [OF gl]) (simp_all add: cong1 [OF inv] add.commute)
  also have "\<dots> = Add e (Mult e (G e) ((u1 + v * c) mod N e))
                 (Mult e (lin e 0 (sk * r)) ((u2 + isk * c) mod N e))"
    by (simp add: lin_mult [OF gl] lin_G [OF gl] lin_add [OF gl])
  finally show ?thesis .
qed

lemma eq2_holds:
  assumes gl: "group_laws e" and inv: "(b * v) mod N e = cb mod N e"
  shows "Add e (Mult e (lin e cb uc) c) (Add e (Mult e (lin e b ub) u1) (Mult e (H e) u3))
         = Add e (Mult e (lin e b ub) ((u1 + v * c) mod N e))
                 (Mult e (H e) (u3 + (uc - v * ub) * c))"
proof -
  have "Add e (Mult e (lin e cb uc) c) (Add e (Mult e (lin e b ub) u1) (Mult e (H e) u3))
        = lin e (cb * c + b * u1) (uc * c + (ub * u1 + u3))"
    by (simp add: lin_mult [OF gl] lin_H [OF gl] lin_add [OF gl])
  also have "\<dots> = lin e (b * ((u1 + v * c) mod N e))
                        (ub * ((u1 + v * c) mod N e) + (u3 + (uc - v * ub) * c))"
    by (rule lin_cong [OF gl]) (simp_all only: cong2 [OF inv] cong3)
  also have "\<dots> = Add e (Mult e (lin e b ub) ((u1 + v * c) mod N e))
                 (Mult e (H e) (u3 + (uc - v * ub) * c))"
    by (simp add: lin_mult [OF gl] lin_H [OF gl] lin_add [OF gl])
  finally show ?thesis .
qed

lemma finish_verifies:
  assumes gl: "group_laws e"
    and isk: "ModInverse e sk (N e) = Some isk" and inv: "(sk * isk) mod N e = 1 mod N e"
    and bv: "(b * v) mod N e = cb mod N e"
    and dv: "DisjVerify e d (lin e v r) (lin e 0 (sk * r)) (H e) (Sub e (lin e cb uc) (G e))
               = (True, None)"
  shows "\<exists>pf. finish_proof e (lin e v r) (lin e 0 (sk * r)) v sk u1 u2 u3 ub uc
                 (lin e b ub) (lin e cb uc) CTok (Inr d) = Return (Ref pf, None)
               \<and> Verify e pf (lin e v r) (lin e 0 (sk * r)) = (True, None)"
  by (simp add: finish_proof_def Verify_def Let_def isk dv
        eq1_holds [OF gl inv] eq2_holds [OF gl bv])

subsection \<open>The small instance satisfies the assumptions\<close>

lemma of_int_mod_11: "(of_int (a mod 11) :: 11) = of_int a"
  by (simp add: bit1.of_int_eq)

lemma zk11_group_laws: "group_laws zk11"
  by (simp add: group_laws_def zk11_def algebra_simps of_int_mod_11)

lemma zk11_prime_order: "prime_order (N zk11)"
  unfolding zk11_def prime_order_def by code_simp

lemma ModInverse_nil_ok:
  assumes n: "0 < n" and cp: "coprime g n"
  shows "\<exists>x. ModInverse_nil g n = Some x \<and> (g * x) mod n = 1 mod n"
proof -
  from cp have "gcd g n = 1" by (simp add: coprime_iff_gcd_eq_1)
  with bezout_int [of g n] obtain u v where uv: "u * g + v * n = 1" by auto
  let ?x = "u mod n"
  have "(g * ?x) mod n = (g * u) mod n" by (simp add: mod_mult_right_eq)
  also have "g * u = 1 - v * n" using uv by (simp add: algebra_simps)
  also have "(1 - v * n) mod n = 1 mod n"
  proof -
    have "(1 - v * n) mod n = (1 - (v * n) mod n) mod n" by (simp only: mod_diff_right_eq)
    then show ?thesis by simp
  qed
  finally have P: "(g * ?x) mod n = 1 mod n" .
  have "?x \<in> set [0..n - 1]" using n by simp
  with P have "find (\<lambda>x. (g * x) mod n = 1 mod n) [0..n - 1] \<noteq> None"
    by (auto simp: find_None_iff)
  then obtain x where f: "find (\<lambda>x. (g * x) mod n = 1 mod n) [0..n - 1] = Some x" by auto
  then have "(g * x) mod n = 1 mod n" by (auto simp: find_Some_iff)
  with f show ?thesis by (simp add: ModInverse_nil_def)
qed

lemma zk11_inverse_ok: "inverse_ok zk11"
  using ModInverse_nil_ok [of 11] by (simp add: inverse_ok_def zk11_def)

lemma zk11_disj_complete: "disj_complete zk11 (t # rd)"
  by (auto simp: disj_complete_def disj_statement_def zk11_def toy_NewDisjunctiveProof_def
        toy_DisjVerify_def split: Side.splits)

lemma zk11_nil_at_zero: "ModInverse zk11 0 (N zk11) = None"
  by (simp add: zk11_def ModInverse_nil_def upto.simps)

subsection \<open>Evaluating the small instance\<close>

lemmas zk11_eval = zk11_def PedCommitR_def ModInverse_nil_def
  toy_NewDisjunctiveProof_def toy_DisjVerify_def bit1.Rep_numeral bit1.Rep_0 bit1.Rep_1
  upto.simps Let_def

lemmas run_eval = NewABCProof_def draw_def rand_Int_def branch_def finish_proof_def
  call_NewDisjunctiveProof_def InvalidInput_def SubProofGenError_def

lemma toy_run:
  "NewABCProof zk11 2 1 5 7 Right toy_world
     = (Return (Ref toy_proof, None), \<lparr>reader = [], disj_calls = [(2, 1, 2, 10, 5, Right)]\<rparr>)"
  by (simp add: run_eval zk11_eval toy_world_def toy_proof_def)

lemma toy_commitments: "PedCommitR zk11 5 4 = 2" "Mult zk11 (Mult zk11 (H zk11) 7) 4 = 1"
  by (simp_all add: zk11_eval)

lemma toy_verify: "Verify zk11 toy_proof 2 1 = (True, None)"
  by (simp add: Verify_def zk11_eval toy_proof_def)

lemma toy_invalid_run:
  "NewABCProof zk11 2 1 5 7 Left toy_world
     = (Return (EmptyABCProof, Some InvalidInput), \<lparr>reader = [6], disj_calls = []\<rparr>)"
  by (simp add: run_eval zk11_eval toy_world_def)

lemma toy_reader: "reader toy_world = 1 # 2 # 3 # 4 # 5 # [6]"
  by (simp add: toy_world_def)

lemma zk11_inv5: "ModInverse zk11 5 (N zk11) = Some 9"
  by (simp add: zk11_eval)

lemma zk11_facts:
  "0 < N zk11" "ModInverse zk11 5 (N zk11) = Some 9"
  "fst (NewDisjunctiveProof zk11 2 0 (H zk11)
          (Sub zk11 (PedCommitR zk11 1 5) (G zk11)) 5 Right [6]) = Inr 5"
  by (simp_all add: zk11_eval)

subsection \<open>Successful runs, taken apart\<close>

lemma finish_proof_success:
  assumes "finish_proof e CM CMTok v sk u1 u2 u3 ub uc Bp Cp CTok r = Return (Ref pf, err)"
  shows "\<exists>isk. r = Inr (disjuncAC pf) \<and> ModInverse e sk (N e) = Some isk \<and> err = None
           \<and> B pf = Bp \<and> C pf = Cp
           \<and> T1 pf = Add e (Mult e (G e) u1) (Mult e CMTok u2)
           \<and> T2 pf = Add e (Mult e Bp u1) (Mult e (H e) u3)
           \<and> Challenge pf = GenerateChallenge e
                [Bytes e (G e), Bytes e (H e), Bytes e CM, Bytes e CMTok, Bytes e Bp,
                 Bytes e Cp, Bytes e (T1 pf), Bytes e (T2 pf)]
           \<and> j pf = (u1 + v * Challenge pf) mod N e
           \<and> k pf = (u2 + isk * Challenge pf) mod N e
           \<and> l pf = u3 + (uc - v * ub) * Challenge pf
           \<and> CToken pf = CTok"
  using assms by (auto simp: finish_proof_def Let_def split: sum.splits option.splits)

lemma branch_success:
  assumes "branch e CM CMTok v sk option u1 u2 u3 ub uc w = (Return (Ref pf, err), w')"
  shows "\<exists>ib r rd'.
           ((option = Left \<and> v = 0 \<and> ModInverse e 0 (N e) = Some ib
               \<and> C pf = PedCommitR e 0 uc
               \<and> NewDisjunctiveProof e CM CMTok (H e) (Sub e (C pf) (G e)) sk Left (reader w)
                    = (r, rd')
               \<and> w' = w\<lparr>reader := rd', disj_calls := disj_calls w @
                         [(CM, CMTok, H e, Sub e (C pf) (G e), sk, Left)]\<rparr>)
            \<or> (option = Right \<and> v \<noteq> 0 \<and> ModInverse e v (N e) = Some ib
               \<and> C pf = PedCommitR e 1 uc
               \<and> NewDisjunctiveProof e CM CMTok (H e) (Sub e (C pf) (G e)) uc Right (reader w)
                    = (r, rd')
               \<and> w' = w\<lparr>reader := rd', disj_calls := disj_calls w @
                         [(CM, CMTok, H e, Sub e (C pf) (G e), uc, Right)]\<rparr>))
           \<and> finish_proof e CM CMTok v sk u1 u2 u3 ub uc (PedCommitR e ib ub) (C pf)
                 (Mult e (Mult e (H e) sk) uc) r = Return (Ref pf, err)"
proof -
  consider (L) "option = Left \<and> v = 0" | (R) "option = Right \<and> v \<noteq> 0"
    | (I) "\<not> (option = Left \<and> v = 0) \<and> \<not> (option = Right \<and> v \<noteq> 0)"
    by blast
  then show ?thesis
  proof cases
    case L
    with assms obtain ib where ib: "ModInverse e 0 (N e) = Some ib"
      by (cases "ModInverse e 0 (N e)") (auto simp: branch_def)
    obtain r rd' where gen:
      "NewDisjunctiveProof e CM CMTok (H e) (Sub e (PedCommitR e 0 uc) (G e)) sk Left (reader w)
         = (r, rd')" by (cases "NewDisjunctiveProof e CM CMTok (H e) (Sub e (PedCommitR e 0 uc) (G e)) sk Left (reader w)")
    from assms L ib gen have fin:
      "finish_proof e CM CMTok v sk u1 u2 u3 ub uc (PedCommitR e ib ub) (PedCommitR e 0 uc)
         (Mult e (Mult e (H e) sk) uc) r = Return (Ref pf, err)"
      and w': "w' = w\<lparr>reader := rd', disj_calls := disj_calls w @
                 [(CM, CMTok, H e, Sub e (PedCommitR e 0 uc) (G e), sk, Left)]\<rparr>"
      by (auto simp: branch_def call_NewDisjunctiveProof_def Let_def)
    from finish_proof_success [OF fin] have Cp: "C pf = PedCommitR e 0 uc" by auto
    show ?thesis using L ib gen fin w' by (auto simp: Cp)
  next
    case R
    with assms obtain ib where ib: "ModInverse e v (N e) = Some ib"
      by (cases "ModInverse e v (N e)") (auto simp: branch_def)
    obtain r rd' where gen:
      "NewDisjunctiveProof e CM CMTok (H e) (Sub e (PedCommitR e 1 uc) (G e)) uc Right (reader w)
         = (r, rd')" by (cases "NewDisjunctiveProof e CM CMTok (H e) (Sub e (PedCommitR e 1 uc) (G e)) uc Right (reader w)")
    from assms R ib gen have fin:
      "finish_proof e CM CMTok v sk u1 u2 u3 ub uc (PedCommitR e ib ub) (PedCommitR e 1 uc)
         (Mult e (Mult e (H e) sk) uc) r = Return (Ref pf, err)"
      and w': "w' = w\<lparr>reader := rd', disj_calls := disj_calls w @
                 [(CM, CMTok, H e, Sub e (PedCommitR e 1 uc) (G e), uc, Right)]\<rparr>"
      by (auto simp: branch_def call_NewDisjunctiveProof_def Let_def)
    from finish_proof_success [OF fin] have Cp: "C pf = PedCommitR e 1 uc" by auto
    show ?thesis using R ib gen fin w' by (auto simp: Cp)
  next
    case I
    with assms show ?thesis by (auto simp: branch_def)
  qed
qed

lemma NewABCProof_success_N:
  assumes "NewABCProof e CM CMTok v sk option w = (Return (Ref pf, err), w')"
  shows "0 < N e"
proof (rule ccontr)
  assume "\<not> 0 < N e"
  then have "NewABCProof e CM CMTok v sk option w = (Panic, w)"
    by (simp add: NewABCProof_def draw_def rand_Int_def)
  with assms show False by simp
qed

subsection \<open>Runs that produce no proof\<close>

lemma invalid_pairing_run:
  assumes "0 < N e" and "reader w = u1 # u2 # u3 # ub # uc # rd"
    and "(option = Right \<and> v = 0) \<or> (option = Left \<and> v \<noteq> 0)"
  shows "NewABCProof e CM CMTok v sk option w
           = (Return (EmptyABCProof, Some InvalidInput), w\<lparr>reader := rd\<rparr>)"
  using assms(3) by (auto simp: NewABCProof_drawn [OF assms(1,2)] branch_def)

lemma draw_keeps_calls:
  assumes "\<And>u w'. disj_calls (snd (cont u w')) = disj_calls w'"
  shows "disj_calls (snd (draw mx w cont)) = disj_calls w"
  by (cases "reader w") (simp_all add: draw_def rand_Int_def assms)

lemma branch_invalid:
  assumes "(option = Right \<and> v = 0) \<or> (option = Left \<and> v \<noteq> 0)"
  shows "branch e CM CMTok v sk option u1 u2 u3 ub uc w
           = (Return (EmptyABCProof, Some InvalidInput), w)"
  using assms by (auto simp: branch_def)

lemma invalid_pairing_no_call:
  assumes "(option = Right \<and> v = 0) \<or> (option = Left \<and> v \<noteq> 0)"
  shows "disj_calls (snd (NewABCProof e CM CMTok v sk option w)) = disj_calls w"
  unfolding NewABCProof_def
  by (intro draw_keeps_calls) (simp add: branch_invalid [OF assms])

lemma left_branch_nil_inverse:
  assumes "0 < N e" and "reader w = u1 # u2 # u3 # ub # uc # rd"
    and "ModInverse e 0 (N e) = None"
  shows "NewABCProof e CM CMTok 0 sk Left w = (Panic, w\<lparr>reader := rd\<rparr>)"
  by (simp add: NewABCProof_drawn [OF assms(1,2)] branch_def assms(3))

lemma exhausted_reader:
  assumes "0 < N e" and "length (reader w) < 5"
  shows "fst (NewABCProof e CM CMTok v sk option w) = Return (nil, Some randError)"
proof -
  obtain xs where xs: "reader w = xs" by simp
  with assms(2) have "length xs < 5" by simp
  then show ?thesis using assms(1) xs
    by (cases xs; cases "tl xs"; cases "tl (tl xs)"; cases "tl (tl (tl xs))";
        cases "tl (tl (tl (tl xs)))")
       (simp_all add: NewABCProof_def draw_def rand_Int_def)
qed

subsection \<open>The verifier\<close>

lemma Verify_refines: "Verify e p CM CMTok = Verify_spec e p CM CMTok"
  by (simp add: Verify_def Verify_spec_def check_subproof_def check_challenge_def
        recompute_challenge_def check_linear1_def check_linear2_def Let_def)

lemma errors_distinct:
  "distinct [SubProofError, ChallengeMismatch, EquationMismatch1, EquationMismatch2]"
  by (simp add: SubProofError_def ChallengeMismatch_def EquationMismatch1_def
        EquationMismatch2_def)

lemma check_challenge_recompute:
  "check_challenge e p CM CMTok = (recompute_challenge e p CM CMTok = Challenge p)"
  by (simp add: check_challenge_def)

lemma accepted_checks:
  assumes "Verify e p CM CMTok = (True, None)"
  shows "check_subproof e p CM CMTok" "recompute_challenge e p CM CMTok = Challenge p"
    "check_linear1 e p CM CMTok" "check_linear2 e p"
  using assms
  by (simp_all add: Verify_refines Verify_spec_def check_challenge_recompute split: if_splits)

lemma Verify_chain:
  "Verify e p CM CMTok =
     (if \<not> check_subproof e p CM CMTok then (False, Some SubProofError)
      else if recompute_challenge e p CM CMTok \<noteq> Challenge p then (False, Some ChallengeMismatch)
      else if \<not> check_linear1 e p CM CMTok then (False, Some EquationMismatch1)
      else if \<not> check_linear2 e p then (False, Some EquationMismatch2)
      else (True, None))"
  by (simp add: Verify_refines Verify_spec_def check_challenge_recompute)

lemma tamper_Challenge:
  assumes acc: "Verify e p CM CMTok = (True, None)" and ne: "c' \<noteq> Challenge p"
  shows "Verify e (p\<lparr>Challenge := c'\<rparr>) CM CMTok = (False, Some ChallengeMismatch)"
  using accepted_checks [OF acc] ne
  by (simp add: Verify_chain check_subproof_def recompute_challenge_def)

lemma tamper_T1:
  assumes gl: "group_laws e"
    and acc: "Verify e p CM CMTok = (True, None)" and ne: "t \<noteq> T1 p"
  shows "Verify e (p\<lparr>T1 := t\<rparr>) CM CMTok = (False, Some ChallengeMismatch)
         \<or> Verify e (p\<lparr>T1 := t\<rparr>) CM CMTok = (False, Some EquationMismatch1)"
proof -
  note a = accepted_checks [OF acc]
  have sub: "check_subproof e (p\<lparr>T1 := t\<rparr>) CM CMTok"
    using a(1) by (simp add: check_subproof_def)
  have "\<not> check_linear1 e (p\<lparr>T1 := t\<rparr>) CM CMTok"
  proof
    assume "check_linear1 e (p\<lparr>T1 := t\<rparr>) CM CMTok"
    with a(3) have "Add e (Mult e CM (Challenge p)) t = Add e (Mult e CM (Challenge p)) (T1 p)"
      by (simp add: check_linear1_def)
    then have "t = T1 p" by (rule add_cancel_left [OF gl])
    with ne show False by simp
  qed
  with sub show ?thesis by (simp add: Verify_chain)
qed

lemma tamper_T2:
  assumes gl: "group_laws e"
    and acc: "Verify e p CM CMTok = (True, None)" and ne: "t \<noteq> T2 p"
  shows "Verify e (p\<lparr>T2 := t\<rparr>) CM CMTok = (False, Some ChallengeMismatch)
         \<or> Verify e (p\<lparr>T2 := t\<rparr>) CM CMTok = (False, Some EquationMismatch2)"
proof -
  note a = accepted_checks [OF acc]
  have sub: "check_subproof e (p\<lparr>T2 := t\<rparr>) CM CMTok"
    using a(1) by (simp add: check_subproof_def)
  have l1: "check_linear1 e (p\<lparr>T2 := t\<rparr>) CM CMTok"
    using a(3) by (simp add: check_linear1_def)
  have "\<not> check_linear2 e (p\<lparr>T2 := t\<rparr>)"
  proof
    assume "check_linear2 e (p\<lparr>T2 := t\<rparr>)"
    with a(4) have "Add e (Mult e (C p) (Challenge p)) t
                      = Add e (Mult e (C p) (Challenge p)) (T2 p)"
      by (simp add: check_linear2_def)
    then have "t = T2 p" by (rule add_cancel_left [OF gl])
    with ne show False by simp
  qed
  with sub l1 show ?thesis by (simp add: Verify_chain)
qed

lemma tamper_j:
  assumes gl: "group_laws e" and po: "prime_order (N e)" and gz: "G e \<noteq> Zero_point e"
    and acc: "Verify e p CM CMTok = (True, None)" and ne: "j' mod N e \<noteq> j p mod N e"
  shows "Verify e (p\<lparr>j := j'\<rparr>) CM CMTok = (False, Some EquationMismatch1)"
proof -
  note a = accepted_checks [OF acc]
  have sub: "check_subproof e (p\<lparr>j := j'\<rparr>) CM CMTok"
    using a(1) by (simp add: check_subproof_def)
  have ch: "recompute_challenge e (p\<lparr>j := j'\<rparr>) CM CMTok = Challenge (p\<lparr>j := j'\<rparr>)"
    using a(2) by (simp add: recompute_challenge_def)
  have "\<not> check_linear1 e (p\<lparr>j := j'\<rparr>) CM CMTok"
  proof
    assume "check_linear1 e (p\<lparr>j := j'\<rparr>) CM CMTok"
    with a(3) have "Add e (Mult e (G e) j') (Mult e CMTok (k p))
                      = Add e (Mult e (G e) (j p)) (Mult e CMTok (k p))"
      by (simp add: check_linear1_def)
    then have "Mult e (G e) j' = Mult e (G e) (j p)" by (rule add_cancel_right [OF gl])
    then have "j' mod N e = j p mod N e" by (rule point_order [OF gl po gz])
    with ne show False by simp
  qed
  with sub ch show ?thesis by (simp add: Verify_chain)
qed

lemma tamper_k:
  assumes gl: "group_laws e" and po: "prime_order (N e)" and tz: "CMTok \<noteq> Zero_point e"
    and acc: "Verify e p CM CMTok = (True, None)" and ne: "k' mod N e \<noteq> k p mod N e"
  shows "Verify e (p\<lparr>k := k'\<rparr>) CM CMTok = (False, Some EquationMismatch1)"
proof -
  note a = accepted_checks [OF acc]
  have sub: "check_subproof e (p\<lparr>k := k'\<rparr>) CM CMTok"
    using a(1) by (simp add: check_subproof_def)
  have ch: "recompute_challenge e (p\<lparr>k := k'\<rparr>) CM CMTok = Challenge (p\<lparr>k := k'\<rparr>)"
    using a(2) by (simp add: recompute_challenge_def)
  have "\<not> check_linear1 e (p\<lparr>k := k'\<rparr>) CM CMTok"
  proof
    assume "check_linear1 e (p\<lparr>k := k'\<rparr>) CM CMTok"
    with a(3) have "Add e (Mult e (G e) (j p)) (Mult e CMTok k')
                      = Add e (Mult e (G e) (j p)) (Mult e CMTok (k p))"
      by (simp add: check_linear1_def)
    then have "Mult e CMTok k' = Mult e CMTok (k p)" by (rule add_cancel_left [OF gl])
    then have "k' mod N e = k p mod N e" by (rule point_order [OF gl po tz])
    with ne show False by simp
  qed
  with sub ch show ?thesis by (simp add: Verify_chain)
qed

lemma tamper_l:
  assumes gl: "group_laws e" and po: "prime_order (N e)" and hz: "H e \<noteq> Zero_point e"
    and acc: "Verify e p CM CMTok = (True, None)" and ne: "l' mod N e \<noteq> l p mod N e"
  shows "Verify e (p\<lparr>l := l'\<rparr>) CM CMTok = (False, Some EquationMismatch2)"
proof -
  note a = accepted_checks [OF acc]
  have sub: "check_subproof e (p\<lparr>l := l'\<rparr>) CM CMTok"
    using a(1) by (simp add: check_subproof_def)
  have ch: "recompute_challenge e (p\<lparr>l := l'\<rparr>) CM CMTok = Challenge (p\<lparr>l := l'\<rparr>)"
    using a(2) by (simp add: recompute_challenge_def)
  have l1: "check_linear1 e (p\<lparr>l := l'\<rparr>) CM CMTok"
    using a(3) by (simp add: check_linear1_def)
  have "\<not> check_linear2 e (p\<lparr>l := l'\<rparr>)"
  proof
    assume "check_linear2 e (p\<lparr>l := l'\<rparr>)"
    with a(4) have "Add e (Mult e (B p) (j p)) (Mult e (H e) l')
                      = Add e (Mult e (B p) (j p)) (Mult e (H e) (l p))"
      by (simp add: check_linear2_def)
    then have "Mult e (H e) l' = Mult e (H e) (l p)" by (rule add_cancel_left [OF gl])
    then have "l' mod N e = l p mod N e" by (rule point_order [OF gl po hz])
    with ne show False by simp
  qed
  with sub ch l1 show ?thesis by (simp add: Verify_chain)
qed

lemma tamper_B:
  assumes gl: "group_laws e" and po: "prime_order (N e)"
    and acc: "Verify e p CM CMTok = (True, None)" and ne: "b \<noteq> B p"
    and det: "recompute_challenge e (p\<lparr>B := b\<rparr>) CM CMTok \<noteq> Challenge p \<or> j p mod N e \<noteq> 0"
  shows "Verify e (p\<lparr>B := b\<rparr>) CM CMTok = (False, Some ChallengeMismatch)
         \<or> Verify e (p\<lparr>B := b\<rparr>) CM CMTok = (False, Some EquationMismatch2)"
proof -
  note a = accepted_checks [OF acc]
  have sub: "check_subproof e (p\<lparr>B := b\<rparr>) CM CMTok"
    using a(1) by (simp add: check_subproof_def)
  have l1: "check_linear1 e (p\<lparr>B := b\<rparr>) CM CMTok"
    using a(3) by (simp add: check_linear1_def)
  show ?thesis
  proof (cases "recompute_challenge e (p\<lparr>B := b\<rparr>) CM CMTok = Challenge p")
    case False
    with sub show ?thesis by (simp add: Verify_chain)
  next
    case True
    with det have jn: "j p mod N e \<noteq> 0" by simp
    have "\<not> check_linear2 e (p\<lparr>B := b\<rparr>)"
    proof
      assume "check_linear2 e (p\<lparr>B := b\<rparr>)"
      with a(4) have "Add e (Mult e b (j p)) (Mult e (H e) (l p))
                        = Add e (Mult e (B p) (j p)) (Mult e (H e) (l p))"
        by (simp add: check_linear2_def)
      then have "Mult e b (j p) = Mult e (B p) (j p)" by (rule add_cancel_right [OF gl])
      then have "b = B p" by (rule scalar_cancel [OF gl po jn])
      with ne show False by simp
    qed
    with sub l1 True show ?thesis by (simp add: Verify_chain)
  qed
qed

lemma tamper_C:
  assumes gl: "group_laws e" and po: "prime_order (N e)"
    and acc: "Verify e p CM CMTok = (True, None)" and ne: "c \<noteq> C p"
    and det: "recompute_challenge e (p\<lparr>C := c\<rparr>) CM CMTok \<noteq> Challenge p
              \<or> Challenge p mod N e \<noteq> 0"
  shows "Verify e (p\<lparr>C := c\<rparr>) CM CMTok = (False, Some SubProofError)
         \<or> Verify e (p\<lparr>C := c\<rparr>) CM CMTok = (False, Some ChallengeMismatch)
         \<or> Verify e (p\<lparr>C := c\<rparr>) CM CMTok = (False, Some EquationMismatch2)"
proof -
  note a = accepted_checks [OF acc]
  have l1: "check_linear1 e (p\<lparr>C := c\<rparr>) CM CMTok"
    using a(3) by (simp add: check_linear1_def)
  show ?thesis
  proof (cases "recompute_challenge e (p\<lparr>C := c\<rparr>) CM CMTok = Challenge p")
    case False
    then show ?thesis by (simp add: Verify_chain)
  next
    case True
    with det have cn: "Challenge p mod N e \<noteq> 0" by simp
    have "\<not> check_linear2 e (p\<lparr>C := c\<rparr>)"
    proof
      assume "check_linear2 e (p\<lparr>C := c\<rparr>)"
      with a(4) have "Add e (Mult e c (Challenge p)) (T2 p)
                        = Add e (Mult e (C p) (Challenge p)) (T2 p)"
        by (simp add: check_linear2_def)
      then have "Mult e c (Challenge p) = Mult e (C p) (Challenge p)"
        by (rule add_cancel_right [OF gl])
      then have "c = C p" by (rule scalar_cancel [OF gl po cn])
      with ne show False by simp
    qed
    with l1 True show ?thesis by (simp add: Verify_chain)
  qed
qed

lemma congruent_scalars_accepted:
  assumes gl: "group_laws e"
    and acc: "Verify e p CM CMTok = (True, None)"
    and cj: "j' mod N e = j p mod N e" and ck: "k' mod N e = k p mod N e"
    and cl: "l' mod N e = l p mod N e"
  shows "Verify e (p\<lparr>j := j', k := k', l := l'\<rparr>) CM CMTok = (True, None)"
proof -
  note a = accepted_checks [OF acc]
  have m: "Mult e x j' = Mult e x (j p)" "Mult e x k' = Mult e x (k p)"
    "Mult e x l' = Mult e x (l p)" for x
    by (rule mult_cong [OF gl cj], rule mult_cong [OF gl ck], rule mult_cong [OF gl cl])
  from a show ?thesis
    by (simp add: Verify_chain check_subproof_def recompute_challenge_def check_linear1_def
          check_linear2_def m)
qed

lemma zk11_generators: "G zk11 \<noteq> Zero_point zk11" "H zk11 \<noteq> Zero_point zk11"
  "(1::11) \<noteq> Zero_point zk11"
  by (simp_all add: Zero_point_def zk11_def)

subsection \<open>Completeness\<close>

text \<open>
  On the right the prover is complete. Scalars are read modulo \<open>N\<close>, a prime; \<open>sk\<close> and
  \<open>v\<close> are not 0 there. The commitments are honest: \<open>CM = v\<cdot>G + r\<cdot>H\<close> and
  \<open>CMTok = r\<cdot>(sk\<cdot>H)\<close> with the same blinding \<open>r\<close> (line 19: "same r from A"). The
  reader delivers the five scalars, the disjunctive collaborator is complete on what
  is left of it, and \<open>ModInverse\<close> inverts invertible scalars. Then \<open>NewABCProof\<close>
  returns a proof with a nil error, and \<open>Verify\<close> answers \<open>(true, nil)\<close> on it.
\<close>

lemma completeness_right:
  assumes gl: "group_laws e" and po: "prime_order (N e)" and io: "inverse_ok e"
    and dc: "disj_complete e rd"
    and rdr: "reader w = u1 # u2 # u3 # ub # uc # rd"
    and sk: "sk mod N e \<noteq> 0"
    and v: "v mod N e \<noteq> 0"
    and CM: "CM = PedCommitR e v r"
    and CMTok: "CMTok = Mult e (Mult e (H e) sk) r"
  shows "\<exists>pf w'. NewABCProof e CM CMTok v sk Right w = (Return (Ref pf, None), w')
                  \<and> Verify e pf CM CMTok = (True, None)"
proof -
  have Npos: "0 < N e" using po by (simp add: prime_order_def)
  have vnz: "v \<noteq> 0" using v by auto
  have CM': "CM = lin e v r" by (simp add: CM PedCommitR_def lin_def)
  have CMTok': "CMTok = lin e 0 (sk * r)"
    by (simp add: CMTok lin_H [OF gl] lin_mult [OF gl])
  from io prime_order_coprime [OF po sk]
  obtain isk where isk: "ModInverse e sk (N e) = Some isk"
    and inv: "(sk * isk) mod N e = 1 mod N e"
    unfolding inverse_ok_def by blast
  let ?w5 = "w\<lparr>reader := rd\<rparr>"
  have run: "NewABCProof e CM CMTok v sk Right w
               = branch e CM CMTok v sk Right u1 u2 u3 ub uc ?w5"
    by (rule NewABCProof_drawn [OF Npos rdr])
  from io prime_order_coprime [OF po v]
  obtain iv where iv: "ModInverse e v (N e) = Some iv"
    and vinv: "(v * iv) mod N e = 1 mod N e"
    unfolding inverse_ok_def by blast
  have st: "disj_statement e CM CMTok (H e) (Sub e (lin e 1 uc) (G e)) uc Right"
    using lin_sub_G [OF gl, of 0 uc] by (simp add: disj_statement_def lin_H [OF gl])
  from dc st obtain d rd' where
    gen: "NewDisjunctiveProof e CM CMTok (H e) (Sub e (lin e 1 uc) (G e)) uc Right rd
            = (Inr d, rd')"
    and dv: "DisjVerify e d CM CMTok (H e) (Sub e (lin e 1 uc) (G e)) = (True, None)"
    unfolding disj_complete_def by blast
  have bv: "(iv * v) mod N e = 1 mod N e" using vinv by (simp add: mult.commute)
  from finish_verifies [OF gl isk inv bv dv [unfolded CM' CMTok'], of u1 u2 u3 ub
      "Mult e (Mult e (H e) sk) uc"]
  obtain pf where
    fin: "finish_proof e (lin e v r) (lin e 0 (sk * r)) v sk u1 u2 u3 ub uc
            (lin e iv ub) (lin e 1 uc) (Mult e (Mult e (H e) sk) uc) (Inr d)
          = Return (Ref pf, None)"
    and ver: "Verify e pf (lin e v r) (lin e 0 (sk * r)) = (True, None)"
    by blast
  have "branch e CM CMTok v sk Right u1 u2 u3 ub uc ?w5
        = (Return (Ref pf, None),
           ?w5\<lparr>reader := rd',
                disj_calls := disj_calls ?w5 @
                  [(CM, CMTok, H e, Sub e (lin e 1 uc) (G e), uc, Right)]\<rparr>)"
    using vnz fin gen
    by (simp add: branch_def iv PedCommitR_def lin_def [symmetric]
          call_NewDisjunctiveProof_def CM' CMTok')
  with run ver show ?thesis by (simp add: CM' CMTok')
qed

text \<open>The run of the specification's scenario B: \<open>v = 5\<close>, \<open>sk = 7\<close>, \<open>Right\<close>, blinding 4.\<close>

lemma completeness_right_example:
  "\<exists>pf w'. NewABCProof zk11 (PedCommitR zk11 5 4) (Mult zk11 (Mult zk11 (H zk11) 7) 4) 5 7
              Right toy_world = (Return (Ref pf, None), w')
            \<and> Verify zk11 pf (PedCommitR zk11 5 4) (Mult zk11 (Mult zk11 (H zk11) 7) 4)
                = (True, None)"
proof -
  have sk: "7 mod N zk11 \<noteq> 0" and v: "5 mod N zk11 \<noteq> 0" by (simp_all add: zk11_def)
  show ?thesis
    by (rule completeness_right [OF zk11_group_laws zk11_prime_order zk11_inverse_ok
          zk11_disj_complete toy_reader sk v refl refl])
qed

text \<open>
  C1. Completeness fails on the left. The run of the specification's scenario A
  (\<open>v = 0\<close>, \<open>sk = 7\<close>, \<open>Left\<close>, honest commitments with blinding 4, a reader that
  delivers its scalars) returns no proof: line 97 asks \<open>ModInverse\<close> for the inverse of
  0, which is nil, and the commitment to it panics. The five scalars are gone and the
  disjunctive proof has not been invoked.
\<close>

theorem honest_left_run_panics:
  "NewABCProof zk11 (PedCommitR zk11 0 4) (Mult zk11 (Mult zk11 (H zk11) 7) 4) 0 7 Left
     toy_world = (Panic, \<lparr>reader = [6], disj_calls = []\<rparr>)"
  by (simp add: run_eval zk11_eval toy_world_def)

text \<open>
  The shared blinding is needed. Here \<open>CM\<close> is blinded with 4 and \<open>CMTok\<close> with 3: the
  prover returns a proof, and the first equation rejects it.
\<close>

lemma unshared_blinding_rejected:
  "NewABCProof zk11 (PedCommitR zk11 5 4) (Mult zk11 (Mult zk11 (H zk11) 7) 3) 5 7 Right
     \<lparr>reader = [2, 2, 3, 4, 5, 6], disj_calls = []\<rparr>
   = (Return (Ref \<lparr>B = 6, C = 0, T1 = 9, T2 = 7, Challenge = 9, j = 3, k = 8, l = - 132,
                    CToken = 4, disjuncAC = 5\<rparr>, None),
      \<lparr>reader = [], disj_calls = [(2, 9, 2, 10, 5, Right)]\<rparr>)
   \<and> Verify zk11 \<lparr>B = 6, C = 0, T1 = 9, T2 = 7, Challenge = 9, j = 3, k = 8, l = - 132,
                   CToken = 4, disjuncAC = 5\<rparr>
         (PedCommitR zk11 5 4) (Mult zk11 (Mult zk11 (H zk11) 7) 3)
       = (False, Some EquationMismatch1)"
  by (simp add: run_eval zk11_eval Verify_def)

subsection \<open>Branch rejection\<close>

text \<open>
  C3. Branch rejection. With the five scalars drawn (lines 64-85 come before the
  check), \<open>v = 0\<close> with \<open>Right\<close> and \<open>v \<noteq> 0\<close> with \<open>Left\<close> return the error
  "invalid side-value pair passed" together with \<open>&ABCProof{}\<close>, the struct without
  content, whatever \<open>CM\<close>, \<open>CMTok\<close> and \<open>sk\<close> are.
\<close>

theorem branch_rejection:
  assumes "0 < N e" and "reader w = u1 # u2 # u3 # ub # uc # rd"
    and "(option = Right \<and> v = 0) \<or> (option = Left \<and> v \<noteq> 0)"
  shows "fst (NewABCProof e CM CMTok v sk option w) = Return (EmptyABCProof, Some InvalidInput)"
  by (simp add: invalid_pairing_run [OF assms])

theorem branch_rejection_witness:
  "fst (NewABCProof zk11 2 1 5 7 Left toy_world) = Return (EmptyABCProof, Some InvalidInput)"
proof -
  have a: "(Left = Right \<and> (5::int) = 0) \<or> (Left = Left \<and> (5::int) \<noteq> 0)" by simp
  have n: "0 < N zk11" by (simp add: zk11_def)
  have r: "reader toy_world = 1 # 2 # 3 # 4 # 5 # [6]" by (simp add: toy_world_def)
  show ?thesis by (rule branch_rejection [OF n r a])
qed

text \<open>
  C4, as the code has it. On an inconsistent pairing \<open>NewDisjunctiveProof\<close> is never
  invoked, from any state; and when the reader delivers the five scalars, exactly
  these five are consumed before the error is returned, and nothing after them.
\<close>

theorem invalid_pairing_effects:
  assumes "(option = Right \<and> v = 0) \<or> (option = Left \<and> v \<noteq> 0)"
  shows "disj_calls (snd (NewABCProof e CM CMTok v sk option w)) = disj_calls w
         \<and> (0 < N e \<and> reader w = u1 # u2 # u3 # ub # uc # rd \<longrightarrow>
              NewABCProof e CM CMTok v sk option w
                = (Return (EmptyABCProof, Some InvalidInput), w\<lparr>reader := rd\<rparr>))"
proof (intro conjI impI)
  show "disj_calls (snd (NewABCProof e CM CMTok v sk option w)) = disj_calls w"
    by (rule invalid_pairing_no_call [OF assms])
next
  assume "0 < N e \<and> reader w = u1 # u2 # u3 # ub # uc # rd"
  then have n: "0 < N e" and r: "reader w = u1 # u2 # u3 # ub # uc # rd" by simp_all
  show "NewABCProof e CM CMTok v sk option w
          = (Return (EmptyABCProof, Some InvalidInput), w\<lparr>reader := rd\<rparr>)"
    by (rule invalid_pairing_run [OF n r assms])
qed

theorem invalid_pairing_effects_witness:
  "disj_calls (snd (NewABCProof zk11 2 1 5 7 Left toy_world)) = disj_calls toy_world
   \<and> NewABCProof zk11 2 1 5 7 Left toy_world
       = (Return (EmptyABCProof, Some InvalidInput), toy_world\<lparr>reader := [6]\<rparr>)"
proof -
  have a: "(Left = Right \<and> (5::int) = 0) \<or> (Left = Left \<and> (5::int) \<noteq> 0)" by simp
  have b: "0 < N zk11 \<and> reader toy_world = 1 # 2 # 3 # 4 # 5 # [6]"
    by (simp add: zk11_def toy_world_def)
  from invalid_pairing_effects [OF a, of zk11 2 1 7 toy_world 1 2 3 4 5 "[6]"] b
  show ?thesis by blast
qed

text \<open>
  C4 as stated fails: the run below reaches the invalid-pairing branch, and the
  reader has gone from six scalars to one.
\<close>

theorem invalid_pairing_draws_counterexample:
  "fst (NewABCProof zk11 2 1 5 7 Left toy_world) = Return (EmptyABCProof, Some InvalidInput)
   \<and> reader toy_world = [1, 2, 3, 4, 5, 6]
   \<and> reader (snd (NewABCProof zk11 2 1 5 7 Left toy_world)) = [6]"
  by (simp add: toy_invalid_run) (simp add: toy_world_def)

subsection \<open>The left branch\<close>

text \<open>
  C5. The zero-inverse convention is not what the code computes. For \<open>side = Left\<close> and
  \<open>v = 0\<close>, with the five scalars drawn, line 97 commits to \<open>ModInverse(0, N)\<close>; where
  that is nil, as in math/big, the call panics there: no \<open>B\<close> and no \<open>C\<close> are
  computed, and no proof is returned, whatever \<open>CM\<close>, \<open>CMTok\<close> and \<open>sk\<close> are.
\<close>

theorem left_branch_panics:
  assumes "0 < N e" and "reader w = u1 # u2 # u3 # ub # uc # rd"
    and "ModInverse e 0 (N e) = None"
  shows "NewABCProof e CM CMTok 0 sk Left w = (Panic, w\<lparr>reader := rd\<rparr>)
         \<and> (\<forall>pf err. fst (NewABCProof e CM CMTok 0 sk Left w) \<noteq> Return (Ref pf, err))"
  by (simp add: left_branch_nil_inverse [OF assms])

theorem left_branch_panics_witness:
  "NewABCProof zk11 8 1 0 7 Left toy_world = (Panic, toy_world\<lparr>reader := [6]\<rparr>)
   \<and> (\<forall>pf err. fst (NewABCProof zk11 8 1 0 7 Left toy_world) \<noteq> Return (Ref pf, err))"
  by (rule left_branch_panics [OF zk11_facts(1) toy_reader zk11_nil_at_zero])

subsection \<open>The response scalars\<close>

text \<open>
  C6. Response-scalar arithmetic. In a run that returns a proof, with the drawn
  scalars \<open>u1, u2, u3, ub, uc\<close> and the challenge \<open>c\<close> of the proof:
  \<open>j = (u1 + v\<cdot>c) mod N\<close> and \<open>k = (u2 + inverse(sk)\<cdot>c) mod N\<close>, both in \<open>[0, N)\<close>, and
  \<open>l = u3 + (uc - v\<cdot>ub)\<cdot>c\<close> as an integer, with no reduction. The run after the
  theorem has \<open>l = -117\<close>; a run on the right with \<open>l\<close> above \<open>N = 11\<close> follows it.
\<close>

theorem response_scalars:
  assumes rdr: "reader w = u1 # u2 # u3 # ub # uc # rd"
    and res: "NewABCProof e CM CMTok v sk option w = (Return (Ref pf, err), w')"
  shows "j pf = (u1 + v * Challenge pf) mod N e
         \<and> (\<exists>isk. ModInverse e sk (N e) = Some isk
                   \<and> k pf = (u2 + isk * Challenge pf) mod N e)
         \<and> 0 \<le> j pf \<and> j pf < N e \<and> 0 \<le> k pf \<and> k pf < N e
         \<and> l pf = u3 + (uc - v * ub) * Challenge pf"
proof -
  have Npos: "0 < N e" by (rule NewABCProof_success_N [OF res])
  from res have br: "branch e CM CMTok v sk option u1 u2 u3 ub uc (w\<lparr>reader := rd\<rparr>)
                       = (Return (Ref pf, err), w')"
    by (simp add: NewABCProof_drawn [OF Npos rdr])
  from branch_success [OF br] obtain ib r where
    fin: "finish_proof e CM CMTok v sk u1 u2 u3 ub uc (PedCommitR e ib ub) (C pf)
            (Mult e (Mult e (H e) sk) uc) r = Return (Ref pf, err)"
    by blast
  from finish_proof_success [OF fin] obtain isk where
    isk: "ModInverse e sk (N e) = Some isk"
    and jj: "j pf = (u1 + v * Challenge pf) mod N e"
    and kk: "k pf = (u2 + isk * Challenge pf) mod N e"
    and ll: "l pf = u3 + (uc - v * ub) * Challenge pf"
    by blast
  have "0 \<le> j pf" "j pf < N e" "0 \<le> k pf" "k pf < N e"
    using Npos by (simp_all add: jj kk)
  with isk jj kk ll show ?thesis by blast
qed

theorem response_scalars_witness:
  "j toy_proof = (1 + 5 * Challenge toy_proof) mod N zk11
   \<and> (\<exists>isk. ModInverse zk11 7 (N zk11) = Some isk
             \<and> k toy_proof = (2 + isk * Challenge toy_proof) mod N zk11)
   \<and> 0 \<le> j toy_proof \<and> j toy_proof < N zk11 \<and> 0 \<le> k toy_proof \<and> k toy_proof < N zk11
   \<and> l toy_proof = 3 + (5 - 5 * 4) * Challenge toy_proof
   \<and> l toy_proof = - 117 \<and> l toy_proof < 0"
  using response_scalars [OF toy_reader toy_run] by (simp add: toy_proof_def)

lemma l_exceeds_order_example:
  "NewABCProof zk11 (PedCommitR zk11 1 4) (Mult zk11 (Mult zk11 (H zk11) 7) 4) 1 7 Right
     \<lparr>reader = [1, 2, 3, 0, 10, 6], disj_calls = []\<rparr>
   = (Return (Ref \<lparr>B = 1, C = 10, T1 = 3, T2 = 7, Challenge = 9, j = 10, k = 8, l = 93,
                    CToken = 8, disjuncAC = 10\<rparr>, None),
      \<lparr>reader = [], disj_calls = [(9, 1, 2, 9, 10, Right)]\<rparr>)
   \<and> N zk11 \<le> 93"
  by (simp add: run_eval zk11_eval)

subsection \<open>The verifier's checks\<close>

text \<open>
  C7. Verifier order and error taxonomy. \<open>Verify\<close> is the chain of the four checks
  in the order sub-proof, challenge, first equation, second equation, each failing
  with an error of its own, the four errors pairwise different; it answers
  \<open>(true, nil)\<close> exactly when all four checks pass.
\<close>

theorem verify_order:
  "Verify e p CM CMTok = Verify_spec e p CM CMTok
   \<and> distinct [SubProofError, ChallengeMismatch, EquationMismatch1, EquationMismatch2]
   \<and> (Verify e p CM CMTok = (True, None))
       = (check_subproof e p CM CMTok \<and> check_challenge e p CM CMTok
          \<and> check_linear1 e p CM CMTok \<and> check_linear2 e p)
   \<and> fst (Verify e p CM CMTok)
       = (check_subproof e p CM CMTok \<and> check_challenge e p CM CMTok
          \<and> check_linear1 e p CM CMTok \<and> check_linear2 e p)"
proof (intro conjI)
  show "Verify e p CM CMTok = Verify_spec e p CM CMTok" by (rule Verify_refines)
  show "distinct [SubProofError, ChallengeMismatch, EquationMismatch1, EquationMismatch2]"
    by (rule errors_distinct)
  show "(Verify e p CM CMTok = (True, None))
          = (check_subproof e p CM CMTok \<and> check_challenge e p CM CMTok
             \<and> check_linear1 e p CM CMTok \<and> check_linear2 e p)"
    by (simp add: Verify_refines Verify_spec_def)
  show "fst (Verify e p CM CMTok)
          = (check_subproof e p CM CMTok \<and> check_challenge e p CM CMTok
             \<and> check_linear1 e p CM CMTok \<and> check_linear2 e p)"
    by (simp add: Verify_refines Verify_spec_def)
qed

text \<open>
  C10. The boolean and the error of \<open>Verify\<close> go together: the result is
  \<open>(true, nil)\<close>, or \<open>false\<close> with an error.
\<close>

theorem verify_result_correlated:
  "Verify e p CM CMTok = (True, None) \<or> (\<exists>err. Verify e p CM CMTok = (False, Some err))"
  by (simp add: Verify_refines Verify_spec_def)

subsection \<open>Delegation to the disjunctive proof\<close>

text \<open>
  Where the branch gets past the inverse for \<open>B\<close>, the rest of the run is what
  \<open>NewDisjunctiveProof\<close> returns on \<open>(CM, CMTok, H, C - G)\<close>, with witness \<open>sk\<close> and side
  \<open>Left\<close> when \<open>v = 0\<close> and with witness \<open>uc\<close> and side \<open>Right\<close> otherwise: its result
  goes into the proof, its reader is the reader afterwards, and the call is the one
  the log gains. \<open>Verify\<close> answers with its sub-proof error exactly when the verifier
  of the embedded sub-proof reports an error on \<open>(CM, CMTok, H, proof.C - G)\<close>.
\<close>

lemma subproof_error_iff:
  "(Verify e p CM CMTok = (False, Some SubProofError))
     = (snd (DisjVerify e (disjuncAC p) CM CMTok (H e) (Sub e (C p) (G e))) \<noteq> None)"
  by (auto simp: Verify_refines Verify_spec_def check_subproof_def SubProofError_def
        ChallengeMismatch_def EquationMismatch1_def EquationMismatch2_def)

lemma delegation_when_reached:
  fixes e :: "('p, 'b, 'd) env"
  assumes Npos: "0 < N e"
    and rdr: "reader w = u1 # u2 # u3 # ub # uc # rd"
    and pair: "option = (if v = 0 then Left else Right)"
    and ib: "ModInverse e v (N e) = Some ib"
  shows "NewABCProof e CM CMTok v sk option w
           = (finish_proof e CM CMTok v sk u1 u2 u3 ub uc (PedCommitR e ib ub)
                (PedCommitR e (if v = 0 then 0 else 1) uc) (Mult e (Mult e (H e) sk) uc)
                (fst (NewDisjunctiveProof e CM CMTok (H e)
                        (Sub e (PedCommitR e (if v = 0 then 0 else 1) uc) (G e))
                        (if v = 0 then sk else uc) option rd)),
              w\<lparr>reader := snd (NewDisjunctiveProof e CM CMTok (H e)
                                (Sub e (PedCommitR e (if v = 0 then 0 else 1) uc) (G e))
                                (if v = 0 then sk else uc) option rd),
                disj_calls := disj_calls w @
                  [(CM, CMTok, H e, Sub e (PedCommitR e (if v = 0 then 0 else 1) uc) (G e),
                    if v = 0 then sk else uc, option)]\<rparr>)"
  using pair ib
  by (cases "v = 0")
     (simp_all add: NewABCProof_drawn [OF Npos rdr] branch_def call_NewDisjunctiveProof_def
        Let_def split: prod.splits)

lemma delegation_right_example:
  "disj_calls (snd (NewABCProof zk11 2 1 5 7 Right toy_world))
     = [(2, 1, H zk11, Sub zk11 (C toy_proof) (G zk11), 5, Right)]
   \<and> fst (NewDisjunctiveProof zk11 2 1 (H zk11) (Sub zk11 (C toy_proof) (G zk11)) 5 Right [6])
       = Inr (disjuncAC toy_proof)
   \<and> Verify zk11 (toy_proof\<lparr>disjuncAC := 3\<rparr>) 2 1 = (False, Some SubProofError)"
  by (simp add: toy_run)
     (simp add: zk11_eval toy_proof_def Verify_def)

text \<open>
  C8. The delegation on the left is never reached. For \<open>v = 0\<close> and \<open>side = Left\<close> the
  call of line 104, on \<open>(CM, CMTok, H, C - G)\<close> with witness \<open>sk\<close>, comes after
  line 97; where \<open>ModInverse(0, N)\<close> is nil, as in math/big, the run has panicked by
  then, and \<open>NewDisjunctiveProof\<close> is not invoked, from any state.
\<close>

theorem left_never_invokes_subproof:
  assumes "ModInverse e 0 (N e) = None"
  shows "disj_calls (snd (NewABCProof e CM CMTok 0 sk Left w)) = disj_calls w
         \<and> (\<forall>pf err. fst (NewABCProof e CM CMTok 0 sk Left w) \<noteq> Return (Ref pf, err))"
proof
  show "disj_calls (snd (NewABCProof e CM CMTok 0 sk Left w)) = disj_calls w"
    unfolding NewABCProof_def
    by (intro draw_keeps_calls) (simp add: branch_def assms)
  show "\<forall>pf err. fst (NewABCProof e CM CMTok 0 sk Left w) \<noteq> Return (Ref pf, err)"
  proof (intro allI notI)
    fix pf err
    assume r: "fst (NewABCProof e CM CMTok 0 sk Left w) = Return (Ref pf, err)"
    have br: "fst (branch e CM CMTok 0 sk Left a1 a2 a3 a4 a5 w') = Panic" for a1 a2 a3 a4 a5 w'
      by (simp add: branch_def assms)
    from r show False
      by (auto simp: NewABCProof_def draw_def rand_Int_def br
            split: if_splits list.splits)
  qed
qed

theorem left_never_invokes_subproof_witness:
  "disj_calls (snd (NewABCProof zk11 8 1 0 7 Left toy_world)) = disj_calls toy_world
   \<and> (\<forall>pf err. fst (NewABCProof zk11 8 1 0 7 Left toy_world) \<noteq> Return (Ref pf, err))"
  by (rule left_never_invokes_subproof [OF zk11_nil_at_zero])

subsection \<open>The secret key is not validated\<close>



subsection \<open>Tampering with an accepted proof\<close>

text \<open>
  C2, as the code has it. Take a proof that \<open>Verify\<close> accepts against \<open>(CM, CMTok)\<close>,
  in a group of prime order \<open>N\<close> whose generators are not the neutral point, and change
  one field. A different \<open>Challenge\<close> gives the challenge mismatch; a different \<open>T1\<close> or
  \<open>T2\<close> gives the challenge mismatch or the mismatch of its equation; a \<open>j\<close> or an \<open>l\<close>
  that is not congruent to the original modulo \<open>N\<close> gives the mismatch of the first or
  of the second equation, and so does such a \<open>k\<close> when \<open>CMTok\<close> is not the neutral
  point; a different \<open>B\<close> (a different \<open>C\<close>) is rejected whenever the recomputed
  challenge changes or \<open>j\<close> (the challenge) is not 0 modulo \<open>N\<close>, a changed \<open>C\<close> possibly by
  the sub-proof check, which comes first. Scalars that are congruent to the original
  ones modulo \<open>N\<close> are accepted as before.
\<close>

theorem tamper_sensitivity:
  fixes e :: "('p, 'b, 'd) env" and p :: "('p, 'd) ABCProof"
  assumes gl: "group_laws e" and po: "prime_order (N e)"
    and gz: "G e \<noteq> Zero_point e" and hz: "H e \<noteq> Zero_point e"
    and acc: "Verify e p CM CMTok = (True, None)"
  shows "(\<forall>c'. c' \<noteq> Challenge p \<longrightarrow>
            Verify e (p\<lparr>Challenge := c'\<rparr>) CM CMTok = (False, Some ChallengeMismatch))
       \<and> (\<forall>t. t \<noteq> T1 p \<longrightarrow>
            Verify e (p\<lparr>T1 := t\<rparr>) CM CMTok
              \<in> {(False, Some ChallengeMismatch), (False, Some EquationMismatch1)})
       \<and> (\<forall>t. t \<noteq> T2 p \<longrightarrow>
            Verify e (p\<lparr>T2 := t\<rparr>) CM CMTok
              \<in> {(False, Some ChallengeMismatch), (False, Some EquationMismatch2)})
       \<and> (\<forall>j'. j' mod N e \<noteq> j p mod N e \<longrightarrow>
            Verify e (p\<lparr>j := j'\<rparr>) CM CMTok = (False, Some EquationMismatch1))
       \<and> (\<forall>k'. k' mod N e \<noteq> k p mod N e \<and> CMTok \<noteq> Zero_point e \<longrightarrow>
            Verify e (p\<lparr>k := k'\<rparr>) CM CMTok = (False, Some EquationMismatch1))
       \<and> (\<forall>l'. l' mod N e \<noteq> l p mod N e \<longrightarrow>
            Verify e (p\<lparr>l := l'\<rparr>) CM CMTok = (False, Some EquationMismatch2))
       \<and> (\<forall>b. b \<noteq> B p
                \<and> (recompute_challenge e (p\<lparr>B := b\<rparr>) CM CMTok \<noteq> Challenge p
                    \<or> j p mod N e \<noteq> 0) \<longrightarrow>
            Verify e (p\<lparr>B := b\<rparr>) CM CMTok
              \<in> {(False, Some ChallengeMismatch), (False, Some EquationMismatch2)})
       \<and> (\<forall>c. c \<noteq> C p
                \<and> (recompute_challenge e (p\<lparr>C := c\<rparr>) CM CMTok \<noteq> Challenge p
                    \<or> Challenge p mod N e \<noteq> 0) \<longrightarrow>
            Verify e (p\<lparr>C := c\<rparr>) CM CMTok
              \<in> {(False, Some SubProofError), (False, Some ChallengeMismatch),
                  (False, Some EquationMismatch2)})
       \<and> (\<forall>j' k' l'. j' mod N e = j p mod N e \<and> k' mod N e = k p mod N e
                \<and> l' mod N e = l p mod N e \<longrightarrow>
            Verify e (p\<lparr>j := j', k := k', l := l'\<rparr>) CM CMTok = (True, None))"
proof (intro conjI allI impI)
  fix c' assume "c' \<noteq> Challenge p"
  then show "Verify e (p\<lparr>Challenge := c'\<rparr>) CM CMTok = (False, Some ChallengeMismatch)"
    by (rule tamper_Challenge [OF acc])
next
  fix t assume "t \<noteq> T1 p"
  from tamper_T1 [OF gl acc this]
  show "Verify e (p\<lparr>T1 := t\<rparr>) CM CMTok
          \<in> {(False, Some ChallengeMismatch), (False, Some EquationMismatch1)}"
    by blast
next
  fix t assume "t \<noteq> T2 p"
  from tamper_T2 [OF gl acc this]
  show "Verify e (p\<lparr>T2 := t\<rparr>) CM CMTok
          \<in> {(False, Some ChallengeMismatch), (False, Some EquationMismatch2)}"
    by blast
next
  fix j' assume "j' mod N e \<noteq> j p mod N e"
  then show "Verify e (p\<lparr>j := j'\<rparr>) CM CMTok = (False, Some EquationMismatch1)"
    by (rule tamper_j [OF gl po gz acc])
next
  fix k' assume "k' mod N e \<noteq> k p mod N e \<and> CMTok \<noteq> Zero_point e"
  then show "Verify e (p\<lparr>k := k'\<rparr>) CM CMTok = (False, Some EquationMismatch1)"
    using tamper_k [OF gl po _ acc] by blast
next
  fix l' assume "l' mod N e \<noteq> l p mod N e"
  then show "Verify e (p\<lparr>l := l'\<rparr>) CM CMTok = (False, Some EquationMismatch2)"
    by (rule tamper_l [OF gl po hz acc])
next
  fix b
  assume "b \<noteq> B p \<and> (recompute_challenge e (p\<lparr>B := b\<rparr>) CM CMTok \<noteq> Challenge p
                        \<or> j p mod N e \<noteq> 0)"
  then have "Verify e (p\<lparr>B := b\<rparr>) CM CMTok = (False, Some ChallengeMismatch)
             \<or> Verify e (p\<lparr>B := b\<rparr>) CM CMTok = (False, Some EquationMismatch2)"
    using tamper_B [OF gl po acc] by blast
  then show "Verify e (p\<lparr>B := b\<rparr>) CM CMTok
               \<in> {(False, Some ChallengeMismatch), (False, Some EquationMismatch2)}"
    by blast
next
  fix c
  assume "c \<noteq> C p \<and> (recompute_challenge e (p\<lparr>C := c\<rparr>) CM CMTok \<noteq> Challenge p
                        \<or> Challenge p mod N e \<noteq> 0)"
  then have "Verify e (p\<lparr>C := c\<rparr>) CM CMTok = (False, Some SubProofError)
             \<or> Verify e (p\<lparr>C := c\<rparr>) CM CMTok = (False, Some ChallengeMismatch)
             \<or> Verify e (p\<lparr>C := c\<rparr>) CM CMTok = (False, Some EquationMismatch2)"
    using tamper_C [OF gl po acc] by blast
  then show "Verify e (p\<lparr>C := c\<rparr>) CM CMTok
               \<in> {(False, Some SubProofError), (False, Some ChallengeMismatch),
                   (False, Some EquationMismatch2)}"
    by blast
next
  fix j' k' l'
  assume "j' mod N e = j p mod N e \<and> k' mod N e = k p mod N e \<and> l' mod N e = l p mod N e"
  then show "Verify e (p\<lparr>j := j', k := k', l := l'\<rparr>) CM CMTok = (True, None)"
    using congruent_scalars_accepted [OF gl acc] by blast
qed

theorem tamper_sensitivity_witness:
  "Verify zk11 (toy_proof\<lparr>Challenge := 3\<rparr>) 2 1 = (False, Some ChallengeMismatch)
   \<and> Verify zk11 (toy_proof\<lparr>T1 := 5\<rparr>) 2 1
       \<in> {(False, Some ChallengeMismatch), (False, Some EquationMismatch1)}
   \<and> Verify zk11 (toy_proof\<lparr>T2 := 5\<rparr>) 2 1
       \<in> {(False, Some ChallengeMismatch), (False, Some EquationMismatch2)}
   \<and> Verify zk11 (toy_proof\<lparr>j := 9\<rparr>) 2 1 = (False, Some EquationMismatch1)
   \<and> Verify zk11 (toy_proof\<lparr>k := 1\<rparr>) 2 1 = (False, Some EquationMismatch1)
   \<and> Verify zk11 (toy_proof\<lparr>l := - 116\<rparr>) 2 1 = (False, Some EquationMismatch2)
   \<and> Verify zk11 (toy_proof\<lparr>B := 7\<rparr>) 2 1
       \<in> {(False, Some ChallengeMismatch), (False, Some EquationMismatch2)}
   \<and> Verify zk11 (toy_proof\<lparr>C := 1\<rparr>) 2 1
       \<in> {(False, Some SubProofError), (False, Some ChallengeMismatch),
           (False, Some EquationMismatch2)}
   \<and> Verify zk11 (toy_proof\<lparr>j := 19, k := 11, l := - 106\<rparr>) 2 1 = (True, None)"
proof -
  note t = tamper_sensitivity [OF zk11_group_laws zk11_prime_order zk11_generators(1,2) toy_verify]
  have h1: "(3::int) \<noteq> Challenge toy_proof" by (simp add: toy_proof_def)
  have h2: "(5::11) \<noteq> T1 toy_proof" by (simp add: toy_proof_def)
  have h3: "(5::11) \<noteq> T2 toy_proof" by (simp add: toy_proof_def)
  have h4: "9 mod N zk11 \<noteq> j toy_proof mod N zk11" by (simp add: toy_proof_def zk11_def)
  have h5: "1 mod N zk11 \<noteq> k toy_proof mod N zk11 \<and> (1::11) \<noteq> Zero_point zk11"
    by (simp add: toy_proof_def zk11_def Zero_point_def)
  have h6: "- 116 mod N zk11 \<noteq> l toy_proof mod N zk11" by (simp add: toy_proof_def zk11_def)
  have h7: "(7::11) \<noteq> B toy_proof
            \<and> (recompute_challenge zk11 (toy_proof\<lparr>B := 7\<rparr>) 2 1 \<noteq> Challenge toy_proof
                \<or> j toy_proof mod N zk11 \<noteq> 0)"
    by (simp add: toy_proof_def zk11_def)
  have h8: "(1::11) \<noteq> C toy_proof
            \<and> (recompute_challenge zk11 (toy_proof\<lparr>C := 1\<rparr>) 2 1 \<noteq> Challenge toy_proof
                \<or> Challenge toy_proof mod N zk11 \<noteq> 0)"
    by (simp add: toy_proof_def zk11_def)
  have h9: "19 mod N zk11 = j toy_proof mod N zk11 \<and> 11 mod N zk11 = k toy_proof mod N zk11
            \<and> - 106 mod N zk11 = l toy_proof mod N zk11"
    by (simp add: toy_proof_def zk11_def)
  note c1 = t [THEN conjunct1, rule_format, OF h1]
  note r1 = t [THEN conjunct2]
  note c2 = r1 [THEN conjunct1, rule_format, OF h2]
  note r2 = r1 [THEN conjunct2]
  note c3 = r2 [THEN conjunct1, rule_format, OF h3]
  note r3 = r2 [THEN conjunct2]
  note c4 = r3 [THEN conjunct1, rule_format, OF h4]
  note r4 = r3 [THEN conjunct2]
  note c5 = r4 [THEN conjunct1, rule_format, OF h5]
  note r5 = r4 [THEN conjunct2]
  note c6 = r5 [THEN conjunct1, rule_format, OF h6]
  note r6 = r5 [THEN conjunct2]
  note c7 = r6 [THEN conjunct1, rule_format, OF h7]
  note r7 = r6 [THEN conjunct2]
  note c8 = r7 [THEN conjunct1, rule_format, OF h8]
  note c9 = r7 [THEN conjunct2, rule_format, OF h9]
  from c1 c2 c3 c4 c5 c6 c7 c8 c9 show ?thesis by blast
qed

text \<open>
  C2 as stated fails: \<open>l + N\<close> differs from \<open>l\<close>, and the proof is accepted with
  either.
\<close>

theorem tamper_l_counterexample:
  "Verify zk11 toy_proof 2 1 = (True, None)
   \<and> l toy_proof + 11 \<noteq> l toy_proof
   \<and> (l toy_proof + 11) mod N zk11 = l toy_proof mod N zk11
   \<and> Verify zk11 (toy_proof\<lparr>l := l toy_proof + 11\<rparr>) 2 1 = (True, None)"
  by (simp add: toy_verify) (simp add: Verify_def zk11_eval toy_proof_def)

text \<open>A changed \<open>C\<close> that the sub-proof check catches before the challenge is recomputed.\<close>

lemma tamper_C_example:
  "Verify zk11 (toy_proof\<lparr>C := 1\<rparr>) 2 1 = (False, Some SubProofError)"
  by (simp add: Verify_def zk11_eval toy_proof_def)

end
